theory Spec2Isabelle
  imports Complex_Main
begin

section \<open>Python values, dictionaries and errors\<close>

text \<open>
  Values that travel through the scripts are JSON-shaped Python values. Python's
  \<^verbatim>\<open>None\<close> is \<open>JNull\<close>; numbers are restricted to integers. A Python \<^verbatim>\<open>dict\<close>
  with string keys is an association list in insertion order, which is the order
  \<^verbatim>\<open>json.dumps\<close> writes.
\<close>

datatype json =
    JNull
  | JBool bool
  | JNum int
  | JStr string
  | JArr "json list"
  | JObj "(string \<times> json) list"

type_synonym pydict = "(string \<times> json) list"

text \<open>
  Exceptions of the scripts. \<open>ClientError code\<close> is botocore's error with its error code;
  \<open>ChangesetFailed status\<close> and \<open>ChangesetTimeout\<close> are the two exceptions that the
  republisher's polling constructs itself.
\<close>

datatype error =
    ClientError string
  | OtherError string
  | KeyError string
  | ValueError
  | TypeError
  | IndexError
  | ChangesetFailed json
  | ChangesetTimeout
  | MergeError

text \<open>\<^verbatim>\<open>d[k] = v\<close>: an existing key keeps its position, a new key goes last.\<close>

fun dict_set :: "string \<Rightarrow> json \<Rightarrow> pydict \<Rightarrow> pydict" where
  "dict_set k v [] = [(k, v)]"
| "dict_set k v (p # d) = (if fst p = k then (k, v) # d else p # dict_set k v d)"

text \<open>\<^verbatim>\<open>d.pop(k)\<close> as far as the dictionary is concerned.\<close>

definition dict_del :: "string \<Rightarrow> pydict \<Rightarrow> pydict" where
  "dict_del k d = filter (\<lambda>p. fst p \<noteq> k) d"

text \<open>\<^verbatim>\<open>{**a, **b}\<close>: a fresh dictionary receiving the items of \<open>a\<close>, then those of \<open>b\<close>.\<close>

definition dict_unpack :: "pydict \<Rightarrow> pydict \<Rightarrow> pydict" where
  "dict_unpack a b = fold (\<lambda>p d. dict_set (fst p) (snd p) d) (a @ b) []"

section \<open>Glossary and glossary-term creation\<close>

text \<open>
  What the scripts print: one constructor per message, with the values interpolated
  into it.
\<close>

datatype message =
    GlossaryAdded string
  | GlossaryExists string
  | TermAdded string
  | TermExists string
  | FormAdded string string
  | StatusCheckError error
  | RepublishError json error
  | RepublishStarted
  | Progress nat nat
  | Republished json
  | RepublishFailed json
  | RepublishFinished
  | FormNotFound string

text \<open>
  \<^verbatim>\<open>add_glossary\<close> and \<^verbatim>\<open>add_glossary_term\<close> of \<^verbatim>\<open>smus_scripts.py\<close>. The remote call's
  outcome is the argument \<open>resp\<close>: \<open>None\<close> when the call returns, \<open>Some e\<close> when it
  raises \<open>e\<close>. The result pairs what the function does (return or raise) with what it
  prints.
\<close>

type_synonym 'a outcome = "(error + 'a) \<times> message list"

definition add_glossary :: "error option \<Rightarrow> string \<Rightarrow> unit outcome" where
  "add_glossary resp glossary_name =
     (case resp of
        None \<Rightarrow> (Inr (), [GlossaryAdded glossary_name])
      | Some (ClientError code) \<Rightarrow>
          (if code = ''ConflictException'' then (Inr (), [GlossaryExists glossary_name])
           else (Inl (ClientError code), []))
      | Some e \<Rightarrow> (Inl e, []))"

definition add_glossary_term :: "error option \<Rightarrow> string \<Rightarrow> unit outcome" where
  "add_glossary_term resp term_name =
     (case resp of
        None \<Rightarrow> (Inr (), [TermAdded term_name])
      | Some (ClientError code) \<Rightarrow>
          (if code = ''ConflictException'' then (Inr (), [TermExists term_name])
           else (Inl (ClientError code), []))
      | Some e \<Rightarrow> (Inl e, []))"

section \<open>The metadata-form merger\<close>

text \<open>
  \<^verbatim>\<open>json.loads\<close> and \<^verbatim>\<open>json.dumps\<close> belong to Python's standard library, not to the
  scripts; the functions below take them as the parameters \<open>loads\<close> (\<open>None\<close> when
  decoding raises) and \<open>dumps\<close>.
\<close>

type_synonym loads = "string \<Rightarrow> json option"
type_synonym dumps = "json \<Rightarrow> string"

text \<open>
  The response of \<^verbatim>\<open>get_asset\<close>, as far as the scripts read it. A field is \<open>None\<close> when
  the key is absent (for \<open>description\<close> also when its value is \<^verbatim>\<open>None\<close>). Forms are
  dictionaries.
\<close>

record asset =
  name :: "string option"
  description :: "string option"
  formsOutput :: "pydict list option"

text \<open>The argument \<^verbatim>\<open>metadata_form_to_add\<close>; \<open>None\<close> is an absent key.\<close>

record candidate =
  formName :: "string option"
  typeIdentifier :: "string option"
  content :: "json option"

text \<open>The keyword arguments of \<^verbatim>\<open>create_asset_revision\<close>.\<close>

record revision =
  rev_domainIdentifier :: string
  rev_identifier :: string
  rev_name :: string
  rev_formsInput :: "pydict list"
  rev_description :: string

text \<open>\<^verbatim>\<open>form.get(k)\<close>, with \<^verbatim>\<open>None\<close> as \<open>JNull\<close>.\<close>

definition dict_get :: "pydict \<Rightarrow> string \<Rightarrow> json" where
  "dict_get d k = (case map_of d k of None \<Rightarrow> JNull | Some v \<Rightarrow> v)"

text \<open>
  The body of the normalisation loop: a \<^verbatim>\<open>typeName\<close> key is popped and its value
  stored under \<^verbatim>\<open>typeIdentifier\<close>; a dictionary under \<^verbatim>\<open>content\<close> is serialised.
\<close>

definition normalize_form :: "dumps \<Rightarrow> pydict \<Rightarrow> pydict" where
  "normalize_form dumps form =
     (let form1 = (case map_of form ''typeName'' of
                     Some v \<Rightarrow> dict_set ''typeIdentifier'' v (dict_del ''typeName'' form)
                   | None \<Rightarrow> form)
      in case dict_get form1 ''content'' of
           JObj d \<Rightarrow> dict_set ''content'' (JStr (dumps (JObj d))) form1
         | _ \<Rightarrow> form1)"

definition normalize_forms :: "dumps \<Rightarrow> pydict list \<Rightarrow> pydict list" where
  "normalize_forms dumps forms = map (normalize_form dumps) forms"

text \<open>
  "Parse new content": a string is decoded, anything else is copied; every exception
  of the block (an absent \<^verbatim>\<open>content\<close> key, a decoding failure) becomes \<^verbatim>\<open>ValueError\<close>.
\<close>

definition parse_new_content :: "loads \<Rightarrow> candidate \<Rightarrow> error + json" where
  "parse_new_content loads cand =
     (case content cand of
        None \<Rightarrow> Inl ValueError
      | Some (JStr s) \<Rightarrow> (case loads s of None \<Rightarrow> Inl ValueError | Some v \<Rightarrow> Inr v)
      | Some v \<Rightarrow> Inr v)"

text \<open>
  The lenient decoding of a matching form's content: \<^verbatim>\<open>json.loads(form["content"])\<close>
  raises when the key is absent, when the value is not text and when the text is not
  JSON; every one of these gives the empty dictionary.
\<close>

definition existing_content :: "loads \<Rightarrow> pydict \<Rightarrow> json" where
  "existing_content loads form =
     (case map_of form ''content'' of
        Some (JStr s) \<Rightarrow> (case loads s of None \<Rightarrow> JObj [] | Some v \<Rightarrow> v)
      | _ \<Rightarrow> JObj [])"

text \<open>\<^verbatim>\<open>{**existing_content, **new_content}\<close>: unpacking a value that is no mapping raises.\<close>

definition merged_content :: "json \<Rightarrow> json \<Rightarrow> error + pydict" where
  "merged_content existing new =
     (case existing of
        JObj e \<Rightarrow> (case new of JObj n \<Rightarrow> Inr (dict_unpack e n) | _ \<Rightarrow> Inl TypeError)
      | _ \<Rightarrow> Inl TypeError)"

text \<open>The loop's test \<^verbatim>\<open>form.get("typeIdentifier") == target_type\<close>.\<close>

definition has_type :: "string \<Rightarrow> pydict \<Rightarrow> bool" where
  "has_type target form \<longleftrightarrow> dict_get form ''typeIdentifier'' = JStr target"

text \<open>
  The "update" loop: the first form whose \<^verbatim>\<open>typeIdentifier\<close> equals the target gets the
  merged content and the loop stops. The flag is \<^verbatim>\<open>form_found\<close>.
\<close>

fun update_forms :: "loads \<Rightarrow> dumps \<Rightarrow> string \<Rightarrow> json \<Rightarrow> pydict list \<Rightarrow> error + (bool \<times> pydict list)" where
  "update_forms loads dumps target new [] = Inr (False, [])"
| "update_forms loads dumps target new (form # forms) =
     (if has_type target form then
        (case merged_content (existing_content loads form) new of
           Inl e \<Rightarrow> Inl e
         | Inr m \<Rightarrow> Inr (True, dict_set ''content'' (JStr (dumps (JObj m))) form # forms))
      else
        (case update_forms loads dumps target new forms of
           Inl e \<Rightarrow> Inl e
         | Inr (found, forms') \<Rightarrow> Inr (found, form # forms')))"

text \<open>
  The merge proper, from "Parse new content" to "Update or insert": the form list that
  \<^verbatim>\<open>add_metadata_form\<close> is about to submit, or the exception raised on the way.
\<close>

definition merge_forms :: "loads \<Rightarrow> dumps \<Rightarrow> pydict list \<Rightarrow> candidate \<Rightarrow> error + pydict list" where
  "merge_forms loads dumps asset_forms cand =
     (case parse_new_content loads cand of
        Inl e \<Rightarrow> Inl e
      | Inr new_content \<Rightarrow>
         (case typeIdentifier cand of
            None \<Rightarrow> Inl (KeyError ''typeIdentifier'')
          | Some target_type \<Rightarrow>
             (case update_forms loads dumps target_type new_content
                     (normalize_forms dumps asset_forms) of
                Inl e \<Rightarrow> Inl e
              | Inr (form_found, forms) \<Rightarrow>
                 (if form_found then Inr forms
                  else (case formName cand of
                          None \<Rightarrow> Inl (KeyError ''formName'')
                        | Some fname \<Rightarrow>
                            Inr (forms @ [[(''formName'', JStr fname),
                                           (''typeIdentifier'', JStr target_type),
                                           (''content'', JStr (dumps new_content))]]))))))"

text \<open>\<^verbatim>\<open>actual_asset.get("formsOutput", [])\<close>.\<close>

definition asset_forms :: "asset \<Rightarrow> pydict list" where
  "asset_forms a = (case formsOutput a of None \<Rightarrow> [] | Some fs \<Rightarrow> fs)"

text \<open>
  \<^verbatim>\<open>add_metadata_form\<close>. The catalog is the pair of parameters \<open>get_asset\<close> and
  \<open>create_asset_revision\<close> (\<open>Some e\<close> when the call raises \<open>e\<close>). The result is the return
  or the exception, the list of revisions submitted, and the messages printed.
\<close>

type_synonym get_asset_api = "string \<Rightarrow> string \<Rightarrow> error + asset"
type_synonym create_asset_revision_api = "revision \<Rightarrow> error option"

definition add_metadata_form ::
  "loads \<Rightarrow> dumps \<Rightarrow> get_asset_api \<Rightarrow> create_asset_revision_api \<Rightarrow>
   string \<Rightarrow> string \<Rightarrow> candidate \<Rightarrow> (error + unit) \<times> revision list \<times> message list" where
  "add_metadata_form loads dumps get_asset create_asset_revision domain_id asset_id cand =
     (case get_asset domain_id asset_id of
        Inl e \<Rightarrow> (Inl e, [], [])
      | Inr actual_asset \<Rightarrow>
         (case name actual_asset of
            None \<Rightarrow> (Inl (KeyError ''name''), [], [])
          | Some asset_name \<Rightarrow>
             (case merge_forms loads dumps (asset_forms actual_asset) cand of
                Inl e \<Rightarrow> (Inl e, [], [])
              | Inr normalized_forms \<Rightarrow>
                 (let request = \<lparr> rev_domainIdentifier = domain_id,
                                  rev_identifier = asset_id,
                                  rev_name = asset_name,
                                  rev_formsInput = normalized_forms,
                                  rev_description =
                                    (case description actual_asset of None \<Rightarrow> [] | Some d \<Rightarrow> d) \<rparr>
                  in case create_asset_revision request of
                       Some e \<Rightarrow> (Inl e, [request], [])
                     | None \<Rightarrow>
                         (Inr (), [request],
                          [FormAdded (case typeIdentifier cand of None \<Rightarrow> [] | Some t \<Rightarrow> t) asset_name])))))"

section \<open>A JSON codec for concrete runs\<close>

text \<open>
  The theorems about the merger hold for every \<open>loads\<close> and \<open>dumps\<close>. To run the merger
  on concrete text, \<open>json_dumps\<close> and \<open>json_loads\<close> follow Python's \<^verbatim>\<open>json.dumps\<close> (default
  separators) and \<^verbatim>\<open>json.loads\<close> on the fragment of JSON used here: objects, arrays,
  integers, \<^verbatim>\<open>true\<close>, \<^verbatim>\<open>false\<close>, \<^verbatim>\<open>null\<close>, and strings of printable ASCII in which only
  the quote and the backslash are escaped. Text outside the fragment is rejected.
\<close>

definition dquote :: char where
  "dquote = CHR 0x22"

definition backslash :: char where
  "backslash = CHR 0x5C"

fun show_nat :: "nat \<Rightarrow> string" where
  "show_nat n =
     (if n < 10 then [''0123456789'' ! n]
      else show_nat (n div 10) @ [''0123456789'' ! (n mod 10)])"

declare show_nat.simps [simp del]

definition show_int :: "int \<Rightarrow> string" where
  "show_int i = (if i < 0 then CHR ''-'' # show_nat (nat (- i)) else show_nat (nat i))"

definition dumps_str :: "string \<Rightarrow> string" where
  "dumps_str s =
     dquote # concat (map (\<lambda>c. if c = dquote \<or> c = backslash then [backslash, c] else [c]) s)
       @ [dquote]"

fun join :: "string \<Rightarrow> string list \<Rightarrow> string" where
  "join sep [] = []"
| "join sep [x] = x"
| "join sep (x # y # ys) = x @ sep @ join sep (y # ys)"

fun json_dumps :: "json \<Rightarrow> string" where
  "json_dumps JNull = ''null''"
| "json_dumps (JBool b) = (if b then ''true'' else ''false'')"
| "json_dumps (JNum i) = show_int i"
| "json_dumps (JStr s) = dumps_str s"
| "json_dumps (JArr vs) = ''['' @ join '', '' (map json_dumps vs) @ '']''"
| "json_dumps (JObj d) =
     ''{'' @ join '', '' (map (\<lambda>p. dumps_str (fst p) @ '': '' @ json_dumps (snd p)) d) @ ''}''"

definition is_ws :: "char \<Rightarrow> bool" where
  "is_ws c \<longleftrightarrow> c = CHR '' '' \<or> c = CHR 0x09 \<or> c = CHR 0x0A \<or> c = CHR 0x0D"

definition skip_ws :: "string \<Rightarrow> string" where
  "skip_ws s = dropWhile is_ws s"

definition is_digit :: "char \<Rightarrow> bool" where
  "is_digit c \<longleftrightarrow> c \<in> set ''0123456789''"

definition digits_val :: "string \<Rightarrow> nat" where
  "digits_val ds = fold (\<lambda>c n. 10 * n + (of_char c - 48)) ds 0"

text \<open>The characters of a string after its opening quote, up to the closing one.\<close>

fun parse_str :: "string \<Rightarrow> string \<Rightarrow> (string \<times> string) option" where
  "parse_str acc [] = None"
| "parse_str acc (c # cs) =
     (if c = dquote then Some (acc, cs)
      else if c = backslash then
        (case cs of
           [] \<Rightarrow> None
         | d # ds \<Rightarrow> if d = dquote \<or> d = backslash then parse_str (acc @ [d]) ds else None)
      else if (of_char c :: nat) < 32 \<or> 126 < (of_char c :: nat) then None
      else parse_str (acc @ [c]) cs)"

text \<open>An integer: an optional minus sign, then \<^verbatim>\<open>0\<close> or digits not starting with \<^verbatim>\<open>0\<close>.\<close>

definition parse_nat :: "string \<Rightarrow> (nat \<times> string) option" where
  "parse_nat s =
     (case s of
        [] \<Rightarrow> None
      | c # cs \<Rightarrow>
          if c = CHR ''0'' then Some (0, cs)
          else if is_digit c then Some (digits_val (takeWhile is_digit s), dropWhile is_digit s)
          else None)"

definition parse_int :: "string \<Rightarrow> (json \<times> string) option" where
  "parse_int s =
     (case (case s of
              [] \<Rightarrow> None
            | c # cs \<Rightarrow>
                if c = CHR ''-'' then map_option (\<lambda>(n, r). (- int n, r)) (parse_nat cs)
                else map_option (\<lambda>(n, r). (int n, r)) (parse_nat s)) of
        None \<Rightarrow> None
      | Some (i, r) \<Rightarrow>
          (case r of
             [] \<Rightarrow> Some (JNum i, r)
           | c # _ \<Rightarrow> if c \<in> set ''.eE'' then None else Some (JNum i, r)))"

definition parse_literal :: "string \<Rightarrow> (json \<times> string) option" where
  "parse_literal s =
     (if take 4 s = ''true'' then Some (JBool True, drop 4 s)
      else if take 5 s = ''false'' then Some (JBool False, drop 5 s)
      else if take 4 s = ''null'' then Some (JNull, drop 4 s)
      else parse_int s)"

text \<open>
  The recursive descent, bounded by a counter that every nested call decrements; each
  call reads at least one character before the next, so the length of the text is
  enough.
\<close>

fun parse_value :: "nat \<Rightarrow> string \<Rightarrow> (json \<times> string) option"
  and parse_elems :: "nat \<Rightarrow> json list \<Rightarrow> string \<Rightarrow> (json \<times> string) option"
  and parse_members :: "nat \<Rightarrow> pydict \<Rightarrow> string \<Rightarrow> (json \<times> string) option" where
  "parse_value 0 s = None"
| "parse_value (Suc n) s =
     (case skip_ws s of
        [] \<Rightarrow> None
      | c # r \<Rightarrow>
          if c = CHR ''{'' then
            (case skip_ws r of
               [] \<Rightarrow> None
             | c' # r' \<Rightarrow> if c' = CHR ''}'' then Some (JObj [], r') else parse_members n [] (c' # r'))
          else if c = CHR ''['' then
            (case skip_ws r of
               [] \<Rightarrow> None
             | c' # r' \<Rightarrow> if c' = CHR '']'' then Some (JArr [], r') else parse_elems n [] (c' # r'))
          else if c = dquote then map_option (\<lambda>(x, r'). (JStr x, r')) (parse_str [] r)
          else parse_literal (c # r))"
| "parse_elems 0 acc s = None"
| "parse_elems (Suc n) acc s =
     (case parse_value n s of
        None \<Rightarrow> None
      | Some (v, r) \<Rightarrow>
          (case skip_ws r of
             [] \<Rightarrow> None
           | c # r' \<Rightarrow>
               if c = CHR '','' then parse_elems n (acc @ [v]) r'
               else if c = CHR '']'' then Some (JArr (acc @ [v]), r')
               else None))"
| "parse_members 0 acc s = None"
| "parse_members (Suc n) acc s =
     (case skip_ws s of
        [] \<Rightarrow> None
      | c # r \<Rightarrow>
          if c \<noteq> dquote then None
          else
            (case parse_str [] r of
               None \<Rightarrow> None
             | Some (k, r1) \<Rightarrow>
                 (case skip_ws r1 of
                    [] \<Rightarrow> None
                  | c1 # r2 \<Rightarrow>
                      if c1 \<noteq> CHR '':'' then None
                      else
                        (case parse_value n r2 of
                           None \<Rightarrow> None
                         | Some (v, r3) \<Rightarrow>
                             (case skip_ws r3 of
                                [] \<Rightarrow> None
                              | c3 # r4 \<Rightarrow>
                                  if c3 = CHR '','' then parse_members n (dict_set k v acc) r4
                                  else if c3 = CHR ''}'' then Some (JObj (dict_set k v acc), r4)
                                  else None)))))"

definition json_loads :: "string \<Rightarrow> json option" where
  "json_loads s =
     (case parse_value (Suc (length s)) s of
        None \<Rightarrow> None
      | Some (v, r) \<Rightarrow> if skip_ws r = [] then Some v else None)"

section \<open>The paginated lister\<close>

text \<open>
  A page of \<^verbatim>\<open>datazone_client.search\<close>, as far as \<^verbatim>\<open>list_assets_ids\<close> reads it: the items
  (\<open>None\<close> when the key is absent) and the continuation token.
\<close>

record search_response =
  items :: "pydict list option"
  nextToken :: "string option"

text \<open>
  The catalog's search is the parameter \<open>search\<close>: the answer to the \<open>k\<close>-th call of a
  run, given the domain, the project, the search scope and the token of the request; it
  returns a page or raises.
\<close>

type_synonym search_api =
  "nat \<Rightarrow> string \<Rightarrow> string \<Rightarrow> string \<Rightarrow> string option \<Rightarrow> error + search_response"

text \<open>Python's truth value of \<^verbatim>\<open>next_token\<close>: \<^verbatim>\<open>None\<close> and the empty string are false.\<close>

definition truthy :: "string option \<Rightarrow> bool" where
  "truthy tok \<longleftrightarrow> (case tok of None \<Rightarrow> False | Some s \<Rightarrow> s \<noteq> [])"

text \<open>The token of the request: \<^verbatim>\<open>nextToken\<close> is set only when \<^verbatim>\<open>next_token\<close> is true.\<close>

definition request_token :: "string option \<Rightarrow> string option" where
  "request_token tok = (if truthy tok then tok else None)"

text \<open>\<^verbatim>\<open>item["assetItem"]["identifier"]\<close>.\<close>

definition item_identifier :: "pydict \<Rightarrow> error + json" where
  "item_identifier item =
     (case map_of item ''assetItem'' of
        None \<Rightarrow> Inl (KeyError ''assetItem'')
      | Some (JObj a) \<Rightarrow>
          (case map_of a ''identifier'' of
             None \<Rightarrow> Inl (KeyError ''identifier'')
           | Some v \<Rightarrow> Inr v)
      | Some _ \<Rightarrow> Inl TypeError)"

text \<open>The generator handed to \<^verbatim>\<open>extend\<close>: the identifiers in order, up to the first exception.\<close>

fun identifiers :: "pydict list \<Rightarrow> error + json list" where
  "identifiers [] = Inr []"
| "identifiers (item # rest) =
     (case item_identifier item of
        Inl e \<Rightarrow> Inl e
      | Inr v \<Rightarrow> (case identifiers rest of Inl e \<Rightarrow> Inl e | Inr vs \<Rightarrow> Inr (v # vs)))"

text \<open>\<^verbatim>\<open>response.get("items", [])\<close>.\<close>

definition page_items :: "search_response \<Rightarrow> pydict list" where
  "page_items response = (case items response of None \<Rightarrow> [] | Some xs \<Rightarrow> xs)"

text \<open>
  The \<^verbatim>\<open>while True\<close> loop of \<^verbatim>\<open>list_assets_ids\<close>, from the state before an iteration: the
  number \<open>k\<close> of calls made so far, the accumulated \<open>asset_ids\<close> and \<open>next_token\<close>. The
  result is \<open>None\<close> when the loop runs forever.
\<close>

partial_function (option) list_assets_loop ::
  "search_api \<Rightarrow> string \<Rightarrow> string \<Rightarrow> nat \<Rightarrow> json list \<Rightarrow> string option
   \<Rightarrow> (error + json list) option" where
  "list_assets_loop search domain_id project_id k asset_ids next_token =
     (case search k domain_id project_id ''ASSET'' (request_token next_token) of
        Inl e \<Rightarrow> Some (Inl e)
      | Inr response \<Rightarrow>
          (case identifiers (page_items response) of
             Inl e \<Rightarrow> Some (Inl e)
           | Inr ids \<Rightarrow>
               if truthy (nextToken response)
               then list_assets_loop search domain_id project_id (Suc k) (asset_ids @ ids)
                      (nextToken response)
               else Some (Inr (asset_ids @ ids))))"

definition list_assets_ids :: "search_api \<Rightarrow> string \<Rightarrow> string \<Rightarrow> (error + json list) option" where
  "list_assets_ids search domain_id project_id =
     list_assets_loop search domain_id project_id 0 [] None"

text \<open>
  A run of the pagination against \<open>search\<close>, from call \<open>k\<close> with token \<open>tok\<close>: the calls
  return the pages of \<open>pages\<close> in order, every page but the last one carrying a true
  continuation token. With \<open>fin = None\<close> the last page carries none; with
  \<open>fin = Some e\<close> the last page carries one too and the call after it raises \<open>e\<close>.
\<close>

fun paging ::
  "search_api \<Rightarrow> string \<Rightarrow> string \<Rightarrow> nat \<Rightarrow> string option \<Rightarrow> search_response list
   \<Rightarrow> error option \<Rightarrow> bool" where
  "paging search d p k tok [] fin =
     (case fin of
        None \<Rightarrow> False
      | Some e \<Rightarrow> search k d p ''ASSET'' (request_token tok) = Inl e)"
| "paging search d p k tok (page # pages) fin =
     (search k d p ''ASSET'' (request_token tok) = Inr page
      \<and> (if pages = [] \<and> fin = None then \<not> truthy (nextToken page)
         else truthy (nextToken page) \<and> paging search d p (Suc k) (nextToken page) pages fin))"

section \<open>The asset republisher\<close>

text \<open>
  The world outside \<^verbatim>\<open>republish_asset.py\<close> is a set of parameters, each giving the answer
  to the \<open>k\<close>-th call of a run: \<open>clock\<close> for \<^verbatim>\<open>time.time()\<close>, \<open>get_listing\<close> and
  \<open>create_listing_change_set\<close> for the catalog (a response dictionary, or the exception
  raised). The state of a run counts the calls made, records the entities for which a
  changeset was requested, and collects what was printed.
\<close>

type_synonym clock = "nat \<Rightarrow> real"
type_synonym get_listing_api = "nat \<Rightarrow> string \<Rightarrow> json \<Rightarrow> error + pydict"
type_synonym create_listing_change_set_api = "nat \<Rightarrow> string \<Rightarrow> json \<Rightarrow> error + pydict"

record run =
  ticks :: nat
  polls :: nat
  requested :: "json list"
  printed :: "message list"

definition print :: "message \<Rightarrow> run \<Rightarrow> run" where
  "print m w = w\<lparr>printed := printed w @ [m]\<rparr>"

text \<open>
  The \<^verbatim>\<open>while\<close> loop of \<^verbatim>\<open>_aguardar_changeset_completion\<close>. The condition reads the clock.
  An exception in the body, the one raised for \<^verbatim>\<open>FAILED\<close> and \<^verbatim>\<open>CANCELLED\<close> included, is
  caught, printed, and leaves the loop; after the loop the function raises the timeout
  exception. \<^verbatim>\<open>time.sleep(1)\<close> changes nothing but the readings of the clock. The result
  is \<open>None\<close> when the loop runs forever.
\<close>

partial_function (option) aguardar_loop ::
  "clock \<Rightarrow> get_listing_api \<Rightarrow> json \<Rightarrow> string \<Rightarrow> real \<Rightarrow> real \<Rightarrow> run
   \<Rightarrow> ((error + bool) \<times> run) option" where
  "aguardar_loop clock get_listing changeset_id domain_id timeout start_time w =
     (let now = clock (ticks w); w1 = w\<lparr>ticks := Suc (ticks w)\<rparr> in
      if now - start_time < timeout then
        (case get_listing (polls w1) domain_id changeset_id of
           Inl e \<Rightarrow> Some (Inl ChangesetTimeout, print (StatusCheckError e) (w1\<lparr>polls := Suc (polls w1)\<rparr>))
         | Inr response \<Rightarrow>
             (let status = dict_get response ''status''; w2 = w1\<lparr>polls := Suc (polls w1)\<rparr> in
              if status = JStr ''ACTIVE'' then Some (Inr True, w2)
              else if status = JStr ''FAILED'' \<or> status = JStr ''CANCELLED'' then
                Some (Inl ChangesetTimeout, print (StatusCheckError (ChangesetFailed status)) w2)
              else aguardar_loop clock get_listing changeset_id domain_id timeout start_time w2))
      else Some (Inl ChangesetTimeout, w1))"

definition aguardar_changeset_completion ::
  "clock \<Rightarrow> get_listing_api \<Rightarrow> json \<Rightarrow> string \<Rightarrow> real \<Rightarrow> run \<Rightarrow> ((error + bool) \<times> run) option" where
  "aguardar_changeset_completion clock get_listing changeset_id domain_id timeout w =
     aguardar_loop clock get_listing changeset_id domain_id timeout (clock (ticks w))
       (w\<lparr>ticks := Suc (ticks w)\<rparr>)"

text \<open>
  \<^verbatim>\<open>republicar_asset\<close>: every exception of the body is caught, printed, and turned into
  \<^verbatim>\<open>False\<close>. The polling uses the default timeout of 300 seconds.
\<close>

definition republicar_asset ::
  "clock \<Rightarrow> get_listing_api \<Rightarrow> create_listing_change_set_api \<Rightarrow> json \<Rightarrow> string \<Rightarrow> run
   \<Rightarrow> (bool \<times> run) option" where
  "republicar_asset clock get_listing create_listing_change_set asset_id domain_id w =
     (let w1 = w\<lparr>requested := requested w @ [asset_id]\<rparr> in
      case create_listing_change_set (length (requested w)) domain_id asset_id of
        Inl e \<Rightarrow> Some (False, print (RepublishError asset_id e) w1)
      | Inr response \<Rightarrow>
          (case map_of response ''listingId'' of
             None \<Rightarrow> Some (False, print (RepublishError asset_id (KeyError ''listingId'')) w1)
           | Some changeset_id \<Rightarrow>
               (case aguardar_changeset_completion clock get_listing changeset_id domain_id 300 w1 of
                  None \<Rightarrow> None
                | Some (Inl e, w2) \<Rightarrow> Some (False, print (RepublishError asset_id e) w2)
                | Some (Inr ok, w2) \<Rightarrow> Some (True, w2))))"

text \<open>The \<^verbatim>\<open>for\<close> loop of \<^verbatim>\<open>main\<close>, with the running \<^verbatim>\<open>count\<close>; \<open>n_assets\<close> is \<^verbatim>\<open>len(assets_ids)\<close>.\<close>

fun republish_loop ::
  "clock \<Rightarrow> get_listing_api \<Rightarrow> create_listing_change_set_api \<Rightarrow> string \<Rightarrow> nat \<Rightarrow> nat
   \<Rightarrow> json list \<Rightarrow> run \<Rightarrow> (nat \<times> run) option" where
  "republish_loop clock get_listing create_listing_change_set domain_id n_assets count [] w =
     Some (count, w)"
| "republish_loop clock get_listing create_listing_change_set domain_id n_assets count
     (asset_id # rest) w =
     (case republicar_asset clock get_listing create_listing_change_set asset_id domain_id w of
        None \<Rightarrow> None
      | Some (success, w1) \<Rightarrow>
          if success then
            republish_loop clock get_listing create_listing_change_set domain_id n_assets (Suc count)
              rest (print (Republished asset_id) (print (Progress (Suc count) n_assets) w1))
          else
            republish_loop clock get_listing create_listing_change_set domain_id n_assets count
              rest (print (RepublishFailed asset_id) w1))"

text \<open>
  \<^verbatim>\<open>main\<close> after the arguments are parsed: the listing, the opening message, the call for
  \<^verbatim>\<open>assets_ids[0]\<close> whose result is dropped, the loop, the closing message. The result is
  the exception that ends the script, if any, and the final state of the run.
\<close>

definition initial_run :: run where
  "initial_run = \<lparr> ticks = 0, polls = 0, requested = [], printed = [] \<rparr>"

definition republish_main ::
  "search_api \<Rightarrow> clock \<Rightarrow> get_listing_api \<Rightarrow> create_listing_change_set_api \<Rightarrow> string \<Rightarrow> string
   \<Rightarrow> ((error + unit) \<times> run) option" where
  "republish_main search clock get_listing create_listing_change_set project_id domain_id =
     (case list_assets_ids search domain_id project_id of
        None \<Rightarrow> None
      | Some (Inl e) \<Rightarrow> Some (Inl e, initial_run)
      | Some (Inr assets_ids) \<Rightarrow>
          (let w0 = print RepublishStarted initial_run in
           case assets_ids of
             [] \<Rightarrow> Some (Inl IndexError, w0)
           | first # _ \<Rightarrow>
               (case republicar_asset clock get_listing create_listing_change_set first domain_id w0 of
                  None \<Rightarrow> None
                | Some (_, w1) \<Rightarrow>
                    (case republish_loop clock get_listing create_listing_change_set domain_id
                            (length assets_ids) 0 assets_ids w1 of
                       None \<Rightarrow> None
                     | Some (count, w2) \<Rightarrow> Some (Inr (), print RepublishFinished w2)))))"

section \<open>The metadata backup\<close>

text \<open>
  The backup computes with pandas data frames. The model keeps what the scripts use of
  them: a frame is a list of column labels and a list of rows in index order
  (\<^verbatim>\<open>RangeIndex\<close>), a row holding the cells that are present; an absent cell is pandas'
  \<^verbatim>\<open>NaN\<close>, which \<^verbatim>\<open>to_csv\<close> writes as an empty field. The operations follow pandas'
  documented behaviour for frames with the default index.
\<close>

record frame =
  columns :: "json list"
  frows :: "(json \<times> json) list list"

text \<open>
  \<^verbatim>\<open>pd.DataFrame([x])\<close>: one row, whatever \<open>x\<close> is. A dictionary gives one column per key,
  a list one column per position, anything else the single column \<^verbatim>\<open>0\<close>.
\<close>

definition data_frame :: "json \<Rightarrow> frame" where
  "data_frame x =
     (case x of
        JObj d \<Rightarrow> \<lparr> columns = remdups (map (\<lambda>p. JStr (fst p)) d),
                    frows = [map (\<lambda>p. (JStr (fst p), snd p)) d] \<rparr>
      | JArr vs \<Rightarrow> \<lparr> columns = map (\<lambda>i. JNum (int i)) [0..<length vs],
                     frows = [zip (map (\<lambda>i. JNum (int i)) [0..<length vs]) vs] \<rparr>
      | _ \<Rightarrow> \<lparr> columns = [JNum 0], frows = [[(JNum 0, x)]] \<rparr>)"

text \<open>\<^verbatim>\<open>pd.DataFrame()\<close>.\<close>

definition empty_frame :: frame where
  "empty_frame = \<lparr> columns = [], frows = [] \<rparr>"

text \<open>The label that \<^verbatim>\<open>merge\<close> gives to a column present on both sides: \<^verbatim>\<open>f"{label}{suffix}"\<close>.\<close>

definition suffixed :: "string \<Rightarrow> json \<Rightarrow> json" where
  "suffixed suffix label =
     (case label of
        JStr s \<Rightarrow> JStr (s @ suffix)
      | JNum i \<Rightarrow> JStr (show_int i @ suffix)
      | _ \<Rightarrow> JStr (json_dumps label @ suffix))"

definition relabel :: "json list \<Rightarrow> string \<Rightarrow> json \<Rightarrow> json" where
  "relabel overlap suffix label = (if label \<in> set overlap then suffixed suffix label else label)"

text \<open>
  \<^verbatim>\<open>pd.merge(left, right, left_index=True, right_index=True)\<close>: the inner join on the index,
  which for default indexes pairs the rows position by position. Columns present on
  both sides get the suffixes \<^verbatim>\<open>_x\<close> and \<^verbatim>\<open>_y\<close>; pandas raises when that produces a
  duplicate label.
\<close>

definition merge_on_index :: "frame \<Rightarrow> frame \<Rightarrow> error + frame" where
  "merge_on_index left right =
     (let overlap = filter (\<lambda>c. c \<in> set (columns right)) (columns left);
          lcols = map (relabel overlap ''_x'') (columns left);
          rcols = map (relabel overlap ''_y'') (columns right)
      in if \<not> distinct (lcols @ rcols) then Inl MergeError
         else Inr \<lparr> columns = lcols @ rcols,
                    frows = map (\<lambda>(l, r). map (\<lambda>p. (relabel overlap ''_x'' (fst p), snd p)) l
                                         @ map (\<lambda>p. (relabel overlap ''_y'' (fst p), snd p)) r)
                              (zip (frows left) (frows right)) \<rparr>)"

text \<open>\<^verbatim>\<open>df[label]\<close>, used as the right side of a merge: the frame of that one column.\<close>

definition select_column :: "json \<Rightarrow> frame \<Rightarrow> frame" where
  "select_column label f =
     \<lparr> columns = [label], frows = map (filter (\<lambda>p. fst p = label)) (frows f) \<rparr>"

text \<open>\<^verbatim>\<open>df[label] = value\<close> with a scalar: every row gets the value.\<close>

definition set_column :: "json \<Rightarrow> json \<Rightarrow> frame \<Rightarrow> frame" where
  "set_column label v f =
     \<lparr> columns = (if label \<in> set (columns f) then columns f else columns f @ [label]),
       frows = map (\<lambda>row. filter (\<lambda>p. fst p \<noteq> label) row @ [(label, v)]) (frows f) \<rparr>"

text \<open>
  \<^verbatim>\<open>pd.concat([a, b], ignore_index=True)\<close>: the rows of \<open>a\<close>, then those of \<open>b\<close>, under the
  union of the columns.
\<close>

definition concat_frames :: "frame \<Rightarrow> frame \<Rightarrow> frame" where
  "concat_frames a b =
     \<lparr> columns = columns a @ filter (\<lambda>c. c \<notin> set (columns a)) (columns b),
       frows = frows a @ frows b \<rparr>"

text \<open>
  What \<^verbatim>\<open>to_csv\<close> writes below the header: for every row the cells in column order,
  \<open>None\<close> where the field is empty.
\<close>

definition csv_cells :: "frame \<Rightarrow> json option list list" where
  "csv_cells f = map (\<lambda>row. map (\<lambda>c. map_of row c) (columns f)) (frows f)"

text \<open>
  The list comprehension of \<^verbatim>\<open>filter_content_output\<close>: the \<^verbatim>\<open>content\<close> of the forms whose
  \<^verbatim>\<open>formName\<close> is the wanted one.
\<close>

fun named_contents :: "string \<Rightarrow> pydict list \<Rightarrow> error + json list" where
  "named_contents form_name [] = Inr []"
| "named_contents form_name (form # forms) =
     (if dict_get form ''formName'' = JStr form_name then
        (case map_of form ''content'' of
           None \<Rightarrow> Inl (KeyError ''content'')
         | Some c \<Rightarrow>
             (case named_contents form_name forms of
                Inl e \<Rightarrow> Inl e
              | Inr cs \<Rightarrow> Inr (c # cs)))
      else named_contents form_name forms)"

text \<open>
  \<^verbatim>\<open>filter_content_output\<close>: the frame of the first such content, decoded; without such a
  form, a message and the frame of the empty dictionary.
\<close>

definition filter_content_output :: "loads \<Rightarrow> asset \<Rightarrow> string \<Rightarrow> (error + frame) \<times> message list" where
  "filter_content_output loads asset_data form_name =
     (case formsOutput asset_data of
        None \<Rightarrow> (Inl (KeyError ''formsOutput''), [])
      | Some forms \<Rightarrow>
          (case named_contents form_name forms of
             Inl e \<Rightarrow> (Inl e, [])
           | Inr [] \<Rightarrow> (Inr (data_frame (JObj [])), [FormNotFound form_name])
           | Inr (c # _) \<Rightarrow>
               (case c of
                  JStr s \<Rightarrow>
                    (case loads s of
                       None \<Rightarrow> (Inl ValueError, [])
                     | Some v \<Rightarrow> (Inr (data_frame v), []))
                | _ \<Rightarrow> (Inl TypeError, []))))"

text \<open>
  One statement after another: an exception of the first ends the sequence, and what
  both print is printed in order.
\<close>

definition and_then ::
  "(error + 'a) \<times> message list \<Rightarrow> ('a \<Rightarrow> (error + 'b) \<times> message list)
   \<Rightarrow> (error + 'b) \<times> message list" where
  "and_then r k =
     (case fst r of
        Inl e \<Rightarrow> (Inl e, snd r)
      | Inr x \<Rightarrow> (fst (k x), snd r @ snd (k x)))"

text \<open>The column label of the description, \<^verbatim>\<open>Descricao\<close> with cedilla and tilde, in UTF-8.\<close>

definition descricao :: string where
  "descricao = ''Descri'' @ [CHR 0xC3, CHR 0xA7, CHR 0xC3, CHR 0xA3] @ ''o''"

text \<open>
  \<^verbatim>\<open>create_metadata_df\<close>. The description is \<^verbatim>\<open>asset_data.get("description", "")\<close>.
\<close>

definition create_metadata_df :: "loads \<Rightarrow> asset \<Rightarrow> (error + frame) \<times> message list" where
  "create_metadata_df loads asset_data =
     and_then (filter_content_output loads asset_data ''seguranca_privacidade'')
       (\<lambda>df_seguranca_privacidade.
     and_then (filter_content_output loads asset_data ''dominio_de_dados'')
       (\<lambda>df_dominio_de_dados.
     and_then (filter_content_output loads asset_data ''GlueTableForm'')
       (\<lambda>df_table_name.
     and_then (merge_on_index df_seguranca_privacidade df_dominio_de_dados, [])
       (\<lambda>df.
     and_then (if JStr ''tableName'' \<in> set (columns df_table_name)
               then merge_on_index df (select_column (JStr ''tableName'') df_table_name)
               else Inr df, [])
       (\<lambda>df'.
          (Inr (set_column (JStr descricao)
                  (JStr (case description asset_data of None \<Rightarrow> [] | Some d \<Rightarrow> d)) df'),
           []))))))"

text \<open>
  The loop of \<^verbatim>\<open>main\<close> in \<^verbatim>\<open>backup_metadata.py\<close>, from the frame accumulated so far, and
  \<^verbatim>\<open>main\<close> itself, whose result is the frame handed to \<^verbatim>\<open>to_csv\<close>.
\<close>

type_synonym get_asset_by_id = "string \<Rightarrow> json \<Rightarrow> error + asset"

fun backup_loop ::
  "loads \<Rightarrow> get_asset_by_id \<Rightarrow> string \<Rightarrow> json list \<Rightarrow> frame \<Rightarrow> (error + frame) \<times> message list" where
  "backup_loop loads get_asset domain_id [] df_metadata = (Inr df_metadata, [])"
| "backup_loop loads get_asset domain_id (asset_id # rest) df_metadata =
     (case get_asset domain_id asset_id of
        Inl e \<Rightarrow> (Inl e, [])
      | Inr asset_data \<Rightarrow>
          (case create_metadata_df loads asset_data of
             (Inl e, ms) \<Rightarrow> (Inl e, ms)
           | (Inr df, ms) \<Rightarrow>
               (case backup_loop loads get_asset domain_id rest (concat_frames df_metadata df) of
                  (r, ms') \<Rightarrow> (r, ms @ ms'))))"

definition backup_main ::
  "search_api \<Rightarrow> loads \<Rightarrow> get_asset_by_id \<Rightarrow> string \<Rightarrow> string
   \<Rightarrow> ((error + frame) \<times> message list) option" where
  "backup_main search loads get_asset domain_id project_id =
     (case list_assets_ids search domain_id project_id of
        None \<Rightarrow> None
      | Some (Inl e) \<Rightarrow> Some (Inl e, [])
      | Some (Inr assets_ids) \<Rightarrow> Some (backup_loop loads get_asset domain_id assets_ids empty_frame))"

section \<open>Example data\<close>

text \<open>The asset and the candidate of the specification's merge scenario.\<close>

definition scenario_form :: pydict where
  \<open>scenario_form = [(''typeIdentifier'', JStr ''ownership''), (''content'', JStr ''{"owner":"A"}'')]\<close>

definition scenario_asset :: asset where
  "scenario_asset = \<lparr> name = Some ''orders'', description = Some ''Orders table'',
                        formsOutput = Some [scenario_form] \<rparr>"

definition scenario_candidate :: candidate where
  "scenario_candidate = \<lparr> formName = Some ''ownership'', typeIdentifier = Some ''ownership'',
       content = Some (JObj [(''owner'', JStr ''B''), (''team'', JStr ''X'')]) \<rparr>"

text \<open>
  An asset as the catalog returns it (forms keyed by \<^verbatim>\<open>typeName\<close>) holding two forms of one
  type under different names, and no description.
\<close>

definition twin_asset :: asset where
  \<open>twin_asset = \<lparr> name = Some ''orders'', description = None,
       formsOutput = Some
         [[(''formName'', JStr ''ownership''), (''typeName'', JStr ''ownership''),
           (''content'', JStr ''{"owner": "A"}'')],
          [(''formName'', JStr ''ownership_old''), (''typeName'', JStr ''ownership''),
           (''content'', JStr ''{"owner": "Z"}'')]] \<rparr>\<close>

text \<open>An asset whose only form carries text that is not JSON.\<close>

definition garbled_asset :: asset where
  "garbled_asset = \<lparr> name = Some ''orders'', description = Some ''Orders table'',
       formsOutput = Some
         [[(''formName'', JStr ''ownership''), (''typeName'', JStr ''ownership''),
           (''content'', JStr ''not json'')]] \<rparr>"

text \<open>Candidates whose content is text: a JSON number, a JSON object, and text that is not JSON.\<close>

definition number_candidate :: candidate where
  "number_candidate = \<lparr> formName = Some ''ownership'', typeIdentifier = Some ''ownership'',
       content = Some (JStr ''3'') \<rparr>"

definition text_candidate :: candidate where
  \<open>text_candidate = \<lparr> formName = Some ''ownership'', typeIdentifier = Some ''ownership'',
       content = Some (JStr ''{"owner": "B", "team": "X"}'') \<rparr>\<close>

definition garbled_candidate :: candidate where
  "garbled_candidate = \<lparr> formName = Some ''ownership'', typeIdentifier = Some ''ownership'',
       content = Some (JStr ''{owner'') \<rparr>"

text \<open>
  A catalog with three assets on two pages, and one that raises when asked for the second
  page.
\<close>

definition first_page :: search_response where
  "first_page = \<lparr> items = Some [[(''assetItem'', JObj [(''identifier'', JStr ''asset_1'')])],
                                  [(''assetItem'', JObj [(''identifier'', JStr ''asset_2'')])]],
                   nextToken = Some ''t1'' \<rparr>"

definition last_page :: search_response where
  "last_page = \<lparr> items = Some [[(''assetItem'', JObj [(''identifier'', JStr ''asset_3'')])]],
                  nextToken = None \<rparr>"

definition two_page_search :: search_api where
  "two_page_search k d p scope tok =
     (if tok = None then Inr first_page
      else if tok = Some ''t1'' then Inr last_page
      else Inl (ClientError ''ValidationException''))"

definition failing_search :: search_api where
  "failing_search k d p scope tok =
     (if tok = None then Inr first_page else Inl (ClientError ''ThrottlingException''))"

text \<open>
  A clock that advances by \<open>step\<close> seconds from one reading to the next; a changeset
  whose first two polls return \<^verbatim>\<open>PENDING\<close> and the later ones \<open>final\<close>; a catalog that
  accepts every publish request; a project without assets.
\<close>

definition steady_clock :: "real \<Rightarrow> clock" where
  "steady_clock step k = step * real k"

definition settling_listing :: "string \<Rightarrow> get_listing_api" where
  "settling_listing final k d c =
     Inr [(''status'', JStr (if k < 2 then ''PENDING'' else final))]"

definition accepting_catalog :: create_listing_change_set_api where
  "accepting_catalog k d a = Inr [(''listingId'', JStr ''listing_1'')]"

definition empty_search :: search_api where
  "empty_search k d p scope tok = Inr \<lparr> items = Some [], nextToken = None \<rparr>"

text \<open>
  The backup scenario of the specification: a project with two assets, of which the
  second has no form \<^verbatim>\<open>dominio_de_dados\<close>.
\<close>

definition two_asset_search :: search_api where
  "two_asset_search k d p scope tok =
     Inr \<lparr> items = Some [[(''assetItem'', JObj [(''identifier'', JStr ''asset_1'')])],
                            [(''assetItem'', JObj [(''identifier'', JStr ''asset_2'')])]],
            nextToken = None \<rparr>"

definition complete_asset :: asset where
  \<open>complete_asset = \<lparr> name = Some ''orders'', description = Some ''Orders table'',
       formsOutput = Some
         [[(''formName'', JStr ''GlueTableForm''), (''typeName'', JStr ''GlueTable''),
           (''content'', JStr ''{"tableName": "orders"}'')],
          [(''formName'', JStr ''seguranca_privacidade''), (''typeName'', JStr ''seguranca_privacidade''),
           (''content'', JStr ''{"classificacao_privacidade": "PII"}'')],
          [(''formName'', JStr ''dominio_de_dados''), (''typeName'', JStr ''dominio_de_dados''),
           (''content'', JStr ''{"domain": "Vendas"}'')]] \<rparr>\<close>

definition partial_asset :: asset where
  \<open>partial_asset = \<lparr> name = Some ''clients'', description = None,
       formsOutput = Some
         [[(''formName'', JStr ''GlueTableForm''), (''typeName'', JStr ''GlueTable''),
           (''content'', JStr ''{"tableName": "clients"}'')],
          [(''formName'', JStr ''seguranca_privacidade''), (''typeName'', JStr ''seguranca_privacidade''),
           (''content'', JStr ''{"classificacao_privacidade": "Interno"}'')]] \<rparr>\<close>

definition backup_catalog :: get_asset_by_id where
  "backup_catalog d asset_id =
     (if asset_id = JStr ''asset_1'' then Inr complete_asset
      else if asset_id = JStr ''asset_2'' then Inr partial_asset
      else Inl (ClientError ''ResourceNotFoundException''))"

section \<open>Auxiliary notions\<close>

text \<open>\<open>set_all xs d\<close> stores the items of \<open>xs\<close> into \<open>d\<close> one after the other.\<close>

definition set_all :: "pydict \<Rightarrow> pydict \<Rightarrow> pydict" where
  "set_all xs d = fold (\<lambda>p d. dict_set (fst p) (snd p) d) xs d"

text \<open>A form as the normalisation loop leaves it: no \<^verbatim>\<open>typeName\<close> key, no dictionary as content.\<close>

definition is_normalized :: "pydict \<Rightarrow> bool" where
  "is_normalized f \<longleftrightarrow> map_of f ''typeName'' = None \<and> (\<forall>d. dict_get f ''content'' \<noteq> JObj d)"

text \<open>
  \<open>n\<close> polls in a row, from the state \<open>w\<close> of the polling loop, that happen within the
  budget and return a status that is neither \<^verbatim>\<open>ACTIVE\<close> nor \<^verbatim>\<open>FAILED\<close> nor \<^verbatim>\<open>CANCELLED\<close>.
\<close>

definition pending_polls ::
  "clock \<Rightarrow> get_listing_api \<Rightarrow> json \<Rightarrow> string \<Rightarrow> real \<Rightarrow> real \<Rightarrow> run \<Rightarrow> nat \<Rightarrow> bool" where
  "pending_polls clock get_listing changeset_id domain_id timeout start_time w n \<longleftrightarrow>
     (\<forall>j<n. clock (ticks w + j) - start_time < timeout
        \<and> (\<exists>response. get_listing (polls w + j) domain_id changeset_id = Inr response
              \<and> dict_get response ''status'' \<noteq> JStr ''ACTIVE''
              \<and> dict_get response ''status'' \<noteq> JStr ''FAILED''
              \<and> dict_get response ''status'' \<noteq> JStr ''CANCELLED''))"

text \<open>A clock on which, from every reading on, some later reading is a whole budget later.\<close>

definition advancing :: "clock \<Rightarrow> real \<Rightarrow> bool" where
  "advancing clock timeout \<longleftrightarrow> (\<forall>k. \<exists>m>k. timeout \<le> clock m - clock k)"

text \<open>
  The messages with which \<^verbatim>\<open>main\<close> reports on an asset, and the assets reported on by a
  list of messages.
\<close>

fun is_report :: "message \<Rightarrow> bool" where
  "is_report (Progress c n) = True"
| "is_report (Republished a) = True"
| "is_report (RepublishFailed a) = True"
| "is_report m = False"

fun report_of :: "message \<Rightarrow> json list" where
  "report_of (Republished a) = [a]"
| "report_of (RepublishFailed a) = [a]"
| "report_of m = []"

definition reported :: "message list \<Rightarrow> json list" where
  "reported ms = concat (map report_of ms)"

text \<open>Two states of a run that differ at most by clock readings, polls and diagnostics.\<close>

definition same_but_polling :: "run \<Rightarrow> run \<Rightarrow> bool" where
  "same_but_polling w w' \<longleftrightarrow>
     requested w' = requested w
     \<and> filter is_report (printed w') = filter is_report (printed w)"

text \<open>A frame whose rows hold cells only under labels that are columns of the frame.\<close>

definition labelled :: "frame \<Rightarrow> bool" where
  "labelled f \<longleftrightarrow> (\<forall>row\<in>set (frows f). fst ` set row \<subseteq> set (columns f))"

section \<open>Facts about dictionaries and the merger\<close>

lemma map_of_dict_set: "map_of (dict_set k v d) = (map_of d)(k \<mapsto> v)"
  by (induction d) (auto simp: fun_eq_iff)

lemma keys_dict_set:
  "map fst (dict_set k v d) = (if k \<in> fst ` set d then map fst d else map fst d @ [k])"
  by (induction d) auto

lemma distinct_dict_set: "distinct (map fst d) \<Longrightarrow> distinct (map fst (dict_set k v d))"
  by (simp add: keys_dict_set)

lemma dict_set_twice: "dict_set k v (dict_set k w d) = dict_set k v d"
  by (induction d) auto

lemma dict_ext:
  "distinct (map fst a) \<Longrightarrow> map fst a = map fst b \<Longrightarrow> map_of a = map_of b \<Longrightarrow> a = b"
proof (induction a arbitrary: b)
  case Nil
  then show ?case by simp
next
  case (Cons p a)
  then obtain q b' where b: "b = q # b'" by (cases b) auto
  with Cons.prems have k: "fst p = fst q" and ks: "map fst a = map fst b'" by auto
  have eq: "map_of (p # a) = map_of (q # b')" using Cons.prems(3) unfolding b .
  have "map_of (p # a) (fst p) = map_of (q # b') (fst p)" using eq by (rule fun_cong)
  with k have v: "snd p = snd q" by simp
  have "map_of a = map_of b'"
  proof
    fix x
    show "map_of a x = map_of b' x"
    proof (cases "x = fst p")
      case True
      with Cons.prems(1) have "x \<notin> fst ` set a" by auto
      moreover from this ks have "x \<notin> fst ` set b'" by (metis list.set_map)
      ultimately have "map_of a x = None" "map_of b' x = None"
        by (simp_all add: map_of_eq_None_iff)
      then show ?thesis by simp
    next
      case False
      have "map_of (p # a) x = map_of (q # b') x" using eq by (rule fun_cong)
      with False k show ?thesis by (cases p; cases q) (auto split: if_splits)
    qed
  qed
  with Cons.IH [of b'] Cons.prems(1) ks have "a = b'" by simp
  with k v b show ?case by (cases p; cases q) simp
qed

lemma map_of_set_all: "map_of (set_all xs d) = map_of d ++ map_of (rev xs)"
  unfolding set_all_def
  by (induction xs arbitrary: d) (auto simp: map_of_dict_set fun_eq_iff map_add_def split: option.splits)

lemma keys_set_all:
  "fst ` set xs \<subseteq> fst ` set d \<Longrightarrow> map fst (set_all xs d) = map fst d"
  unfolding set_all_def
proof (induction xs arbitrary: d)
  case Nil
  then show ?case by simp
next
  case (Cons p xs)
  have "map fst (dict_set (fst p) (snd p) d) = map fst d"
    using Cons.prems by (simp add: keys_dict_set)
  moreover from this have "fst ` set (dict_set (fst p) (snd p) d) = fst ` set d"
    by (metis list.set_map)
  ultimately show ?case using Cons.IH [of "dict_set (fst p) (snd p) d"] Cons.prems by simp
qed

lemma keys_set_all_sup: "fst ` set d \<union> fst ` set xs \<subseteq> fst ` set (set_all xs d)"
proof -
  have "dom (map_of (set_all xs d)) = dom (map_of d) \<union> dom (map_of (rev xs))"
    by (simp add: map_of_set_all Un_commute)
  then show ?thesis by (simp add: dom_map_of_conv_image_fst)
qed

lemma distinct_set_all: "distinct (map fst d) \<Longrightarrow> distinct (map fst (set_all xs d))"
  unfolding set_all_def
  by (induction xs arbitrary: d) (auto simp: distinct_dict_set)

lemma set_all_absorb: "set_all xs (set_all xs d) = set_all xs d" if "distinct (map fst d)"
proof (rule dict_ext)
  show "distinct (map fst (set_all xs (set_all xs d)))"
    using that by (simp add: distinct_set_all)
  have sub: "fst ` set xs \<subseteq> fst ` set (set_all xs d)"
    using keys_set_all_sup [of d xs] by simp
  then show "map fst (set_all xs (set_all xs d)) = map fst (set_all xs d)"
    by (rule keys_set_all)
  show "map_of (set_all xs (set_all xs d)) = map_of (set_all xs d)"
    by (auto simp: map_of_set_all fun_eq_iff map_add_def split: option.splits)
qed

lemma dict_set_fresh: "k \<notin> fst ` set d \<Longrightarrow> dict_set k v d = d @ [(k, v)]"
  by (induction d) auto

lemma set_all_id: "distinct (map fst d) \<Longrightarrow> set_all d [] = d"
proof (induction d rule: rev_induct)
  case Nil
  then show ?case by (simp add: set_all_def)
next
  case (snoc p d)
  then have "set_all d [] = d" by simp
  moreover have "fst p \<notin> fst ` set d" using snoc.prems by auto
  ultimately show ?case by (simp add: set_all_def dict_set_fresh)
qed

lemma dict_get_dict_set: "dict_get (dict_set k v d) k' = (if k' = k then v else dict_get d k')"
  by (simp add: dict_get_def map_of_dict_set)

lemma has_type_set_content: "has_type t (dict_set ''content'' v f) = has_type t f"
  by (simp add: has_type_def dict_get_dict_set)

lemma update_forms_none:
  "find (has_type t) fs = None \<Longrightarrow> update_forms loads dumps t new fs = Inr (False, fs)"
  by (induction fs) (auto split: if_splits)

lemma update_forms_error:
  "find (has_type t) fs = Some f \<Longrightarrow> merged_content (existing_content loads f) new = Inl e
   \<Longrightarrow> update_forms loads dumps t new fs = Inl e"
  by (induction fs) (auto split: if_splits)

lemma update_forms_some:
  "find (has_type t) fs = Some f \<Longrightarrow> merged_content (existing_content loads f) new = Inr m
   \<Longrightarrow> \<exists>pre post. fs = pre @ f # post \<and> find (has_type t) pre = None
        \<and> update_forms loads dumps t new fs
            = Inr (True, pre @ dict_set ''content'' (JStr (dumps (JObj m))) f # post)"
proof (induction fs)
  case Nil
  then show ?case by simp
next
  case (Cons g fs)
  show ?case
  proof (cases "has_type t g")
    case True
    with Cons.prems have "g = f" by simp
    with True Cons.prems show ?thesis
      by (intro exI [of _ "[]"] exI [of _ fs]) simp
  next
    case False
    with Cons.prems have "find (has_type t) fs = Some f" by simp
    from Cons.IH [OF this Cons.prems(2)] obtain pre post where
      "fs = pre @ f # post" "find (has_type t) pre = None"
      "update_forms loads dumps t new fs
         = Inr (True, pre @ dict_set ''content'' (JStr (dumps (JObj m))) f # post)"
      by blast
    with False show ?thesis
      by (intro exI [of _ "g # pre"] exI [of _ post]) simp
  qed
qed

lemma find_append_hit:
  "find P pre = None \<Longrightarrow> P x \<Longrightarrow> find P (pre @ x # post) = Some x"
  by (induction pre) (auto split: if_splits)

lemma find_append_miss:
  "find P xs = None \<Longrightarrow> find P (xs @ ys) = find P ys"
  by (induction xs) (auto split: if_splits)

lemma find_Some_has: "find P xs = Some x \<Longrightarrow> P x"
  by (induction xs) (auto split: if_splits)

lemma map_of_dict_del: "map_of (dict_del k d) = (map_of d)(k := None)"
  by (induction d) (auto simp: dict_del_def fun_eq_iff)

lemma normalize_form_id: "is_normalized f \<Longrightarrow> normalize_form dumps f = f"
  by (auto simp: is_normalized_def normalize_form_def split: json.splits)

lemma normalize_form_normalized: "is_normalized (normalize_form dumps f)"
  by (auto simp: is_normalized_def normalize_form_def Let_def dict_get_def map_of_dict_set
      map_of_dict_del split: option.splits json.splits)

lemma set_content_normalized:
  "is_normalized f \<Longrightarrow> is_normalized (dict_set ''content'' (JStr s) f)"
  by (auto simp: is_normalized_def dict_get_def map_of_dict_set)

lemma normalize_forms_id: "\<forall>f\<in>set fs. is_normalized f \<Longrightarrow> normalize_forms dumps fs = fs"
  by (simp add: normalize_forms_def normalize_form_id map_idI)

lemma normalize_forms_normalized: "\<forall>f\<in>set (normalize_forms dumps fs). is_normalized f"
  by (simp add: normalize_forms_def normalize_form_normalized)

lemma merge_forms_found:
  assumes "typeIdentifier cand = Some t" "parse_new_content loads cand = Inr new"
    "find (has_type t) (normalize_forms dumps forms) = Some f"
    "merged_content (existing_content loads f) new = Inr m"
  shows "\<exists>pre post. normalize_forms dumps forms = pre @ f # post \<and> find (has_type t) pre = None
          \<and> merge_forms loads dumps forms cand
              = Inr (pre @ dict_set ''content'' (JStr (dumps (JObj m))) f # post)"
proof -
  from update_forms_some [OF assms(3,4), of dumps] obtain pre post where
    "normalize_forms dumps forms = pre @ f # post" "find (has_type t) pre = None"
    "update_forms loads dumps t new (normalize_forms dumps forms)
       = Inr (True, pre @ dict_set ''content'' (JStr (dumps (JObj m))) f # post)"
    by blast
  with assms(1,2) show ?thesis
    by (intro exI [of _ pre] exI [of _ post]) (simp add: merge_forms_def)
qed

lemma merge_forms_not_found:
  assumes "typeIdentifier cand = Some t" "parse_new_content loads cand = Inr new"
    "find (has_type t) (normalize_forms dumps forms) = None" "formName cand = Some fname"
  shows "merge_forms loads dumps forms cand
           = Inr (normalize_forms dumps forms @
                  [[(''formName'', JStr fname), (''typeIdentifier'', JStr t),
                    (''content'', JStr (dumps new))]])"
  using assms by (simp add: merge_forms_def update_forms_none)

lemma merge_forms_cases:
  assumes "merge_forms loads dumps forms cand = Inr out"
  obtains (found) t new f m pre post where
      "typeIdentifier cand = Some t" "parse_new_content loads cand = Inr new"
      "find (has_type t) (normalize_forms dumps forms) = Some f"
      "merged_content (existing_content loads f) new = Inr m"
      "normalize_forms dumps forms = pre @ f # post" "find (has_type t) pre = None"
      "out = pre @ dict_set ''content'' (JStr (dumps (JObj m))) f # post"
  | (fresh) t new fname where
      "typeIdentifier cand = Some t" "parse_new_content loads cand = Inr new"
      "find (has_type t) (normalize_forms dumps forms) = None" "formName cand = Some fname"
      "out = normalize_forms dumps forms @
                  [[(''formName'', JStr fname), (''typeIdentifier'', JStr t),
                    (''content'', JStr (dumps new))]]"
proof -
  from assms obtain new where new: "parse_new_content loads cand = Inr new"
    by (auto simp: merge_forms_def split: sum.splits)
  from assms new obtain t where t: "typeIdentifier cand = Some t"
    by (auto simp: merge_forms_def split: option.splits)
  show thesis
  proof (cases "find (has_type t) (normalize_forms dumps forms)")
    case None
    with assms new t obtain fname where fn: "formName cand = Some fname"
      by (auto simp: merge_forms_def update_forms_none split: option.splits)
    from merge_forms_not_found [OF t new None fn] assms fresh [OF t new None fn]
    show ?thesis by simp
  next
    case (Some f)
    show ?thesis
    proof (cases "merged_content (existing_content loads f) new")
      case (Inl e)
      from update_forms_error [OF Some Inl] assms new t show ?thesis
        by (simp add: merge_forms_def)
    next
      case (Inr m)
      from merge_forms_found [OF t new Some Inr] obtain pre post where
        *: "normalize_forms dumps forms = pre @ f # post" "find (has_type t) pre = None"
        "merge_forms loads dumps forms cand
              = Inr (pre @ dict_set ''content'' (JStr (dumps (JObj m))) f # post)"
        by blast
      with assms have "out = pre @ dict_set ''content'' (JStr (dumps (JObj m))) f # post" by simp
      with found [OF t new Some Inr *(1,2)] show ?thesis by simp
    qed
  qed
qed

lemma type_set_content:
  "dict_get (dict_set ''content'' v f) ''typeIdentifier'' = dict_get f ''typeIdentifier''"
  by (simp add: dict_get_dict_set)

lemma length_normalize_forms: "length (normalize_forms dumps forms) = length forms"
  by (simp add: normalize_forms_def)

lemma dict_unpack_absorb: "dict_unpack (dict_unpack e n) n = dict_unpack e n"
proof -
  let ?m = "set_all n (set_all e [])"
  have m: "dict_unpack e n = ?m" by (simp add: dict_unpack_def set_all_def)
  have d: "distinct (map fst ?m)" by (simp add: distinct_set_all)
  have "dict_unpack ?m n = set_all n (set_all ?m [])"
    by (simp add: dict_unpack_def set_all_def)
  also have "\<dots> = set_all n ?m" using d by (simp add: set_all_id)
  also have "\<dots> = ?m" by (simp add: set_all_absorb distinct_set_all)
  finally show ?thesis using m by simp
qed

lemma dict_unpack_self: "distinct (map fst n) \<Longrightarrow> dict_unpack n n = n"
proof -
  assume d: "distinct (map fst n)"
  have "dict_unpack n n = set_all n (set_all n [])"
    by (simp add: dict_unpack_def set_all_def)
  also have "\<dots> = set_all n []" by (simp add: set_all_absorb)
  also have "\<dots> = n" using d by (rule set_all_id)
  finally show ?thesis .
qed

lemma existing_content_set:
  "existing_content loads (dict_set ''content'' (JStr s) f)
     = (case loads s of None \<Rightarrow> JObj [] | Some v \<Rightarrow> v)"
  by (simp add: existing_content_def map_of_dict_set)

lemma add_metadata_form_run:
  assumes "get_asset d i = Inr a" "name a = Some nm"
    "merge_forms loads dumps (asset_forms a) cand = Inr out"
  shows "add_metadata_form loads dumps get_asset create d i cand =
     (let request = \<lparr> rev_domainIdentifier = d, rev_identifier = i, rev_name = nm,
                       rev_formsInput = out,
                       rev_description = (case description a of None \<Rightarrow> [] | Some x \<Rightarrow> x) \<rparr>
      in case create request of
           Some e \<Rightarrow> (Inl e, [request], [])
         | None \<Rightarrow> (Inr (), [request],
                     [FormAdded (case typeIdentifier cand of None \<Rightarrow> [] | Some t \<Rightarrow> t) nm]))"
  using assms by (simp add: add_metadata_form_def)

lemma map_of_rev_distinct: "distinct (map fst n) \<Longrightarrow> map_of (rev n) = map_of n"
  by (subst map_of_inject_set) (simp_all add: rev_map [symmetric])

lemma map_of_dict_unpack:
  assumes "distinct (map fst e)" "distinct (map fst n)"
  shows "map_of (dict_unpack e n) = map_of e ++ map_of n"
proof -
  have "dict_unpack e n = set_all n (set_all e [])"
    by (simp add: dict_unpack_def set_all_def)
  also have "\<dots> = set_all n e" using assms(1) by (simp add: set_all_id)
  finally have "map_of (dict_unpack e n) = map_of e ++ map_of (rev n)"
    by (simp add: map_of_set_all)
  moreover have "map_of (rev n) = map_of n"
    using assms(2) by (rule map_of_rev_distinct)
  ultimately show ?thesis by simp
qed

section \<open>Facts about the paginated lister\<close>

lemma identifiers_length: "identifiers xs = Inr ids \<Longrightarrow> length ids = length xs"
  by (induction xs arbitrary: ids) (auto split: sum.splits)

lemma list_assets_loop_paging:
  assumes "paging search d p k tok pages fin"
    and "map (\<lambda>page. identifiers (page_items page)) pages = map Inr idss"
  shows "list_assets_loop search d p k acc tok
           = Some (case fin of None \<Rightarrow> Inr (acc @ concat idss) | Some e \<Rightarrow> Inl e)"
  using assms
proof (induction pages arbitrary: k tok acc idss)
  case Nil
  then show ?case
    by (subst list_assets_loop.simps) (auto split: option.splits)
next
  case (Cons page pages)
  from Cons.prems(2) obtain ids rest where
    idss: "idss = ids # rest" and ids: "identifiers (page_items page) = Inr ids"
    and rest: "map (\<lambda>page. identifiers (page_items page)) pages = map Inr rest"
    by (cases idss) auto
  from Cons.prems(1) have call: "search k d p ''ASSET'' (request_token tok) = Inr page"
    by simp
  show ?case
  proof (cases "pages = [] \<and> fin = None")
    case True
    with Cons.prems(1) have "\<not> truthy (nextToken page)" by simp
    moreover from True rest have "rest = []" by simp
    ultimately show ?thesis using call ids idss True
      by (subst list_assets_loop.simps) simp
  next
    case False
    with Cons.prems(1) have more: "truthy (nextToken page)"
      "paging search d p (Suc k) (nextToken page) pages fin"
      by (simp_all split: if_splits)
    from Cons.IH [OF more(2) rest, of "acc @ ids"] more(1) call ids idss
    show ?thesis
      by (subst list_assets_loop.simps) (simp split: option.splits)
  qed
qed

section \<open>Facts about the republisher\<close>

lemma aguardar_loop_pending:
  "pending_polls clock gl c d T s w n \<Longrightarrow>
     aguardar_loop clock gl c d T s w
       = aguardar_loop clock gl c d T s (w\<lparr>ticks := ticks w + n, polls := polls w + n\<rparr>)"
proof (induction n arbitrary: w)
  case 0
  then show ?case by simp
next
  case (Suc n)
  let ?w2 = "w\<lparr>ticks := Suc (ticks w), polls := Suc (polls w)\<rparr>"
  let ?P = "\<lambda>j. clock (ticks w + j) - s < T
        \<and> (\<exists>response. gl (polls w + j) d c = Inr response
              \<and> dict_get response ''status'' \<noteq> JStr ''ACTIVE''
              \<and> dict_get response ''status'' \<noteq> JStr ''FAILED''
              \<and> dict_get response ''status'' \<noteq> JStr ''CANCELLED'')"
  from Suc.prems have all: "\<And>j. j < Suc n \<Longrightarrow> ?P j"
    unfolding pending_polls_def by blast
  have "?P 0" by (rule all) simp
  then obtain response where now: "clock (ticks w) - s < T"
    and r: "gl (polls w) d c = Inr response"
    "dict_get response ''status'' \<noteq> JStr ''ACTIVE''"
    "dict_get response ''status'' \<noteq> JStr ''FAILED''"
    "dict_get response ''status'' \<noteq> JStr ''CANCELLED''"
    by auto
  have step: "aguardar_loop clock gl c d T s w = aguardar_loop clock gl c d T s ?w2"
    using now r by (subst aguardar_loop.simps) (simp add: Let_def)
  have "pending_polls clock gl c d T s ?w2 n"
    unfolding pending_polls_def
  proof (intro allI impI)
    fix j assume "j < n"
    then have "?P (Suc j)" by (intro all) simp
    then show "clock (ticks ?w2 + j) - s < T \<and>
         (\<exists>response. gl (polls ?w2 + j) d c = Inr response \<and>
              dict_get response ''status'' \<noteq> JStr ''ACTIVE'' \<and>
              dict_get response ''status'' \<noteq> JStr ''FAILED'' \<and>
              dict_get response ''status'' \<noteq> JStr ''CANCELLED'')"
      by simp
  qed
  from Suc.IH [OF this] step show ?case by simp
qed

lemma aguardar_loop_returns:
  assumes "ticks w \<le> m" "T \<le> clock m - s"
  shows "\<exists>r w'. aguardar_loop clock gl c d T s w = Some (r, w') \<and> same_but_polling w w'"
  using assms
proof (induction "m - ticks w" arbitrary: w)
  case 0
  then have "ticks w = m" by simp
  with "0.prems"(2) have "\<not> clock (ticks w) - s < T" by simp
  then show ?case
    by (subst aguardar_loop.simps) (simp add: Let_def same_but_polling_def)
next
  case (Suc x)
  show ?case
  proof (cases "clock (ticks w) - s < T")
    case False
    then show ?thesis
      by (subst aguardar_loop.simps) (simp add: Let_def same_but_polling_def)
  next
    case True
    show ?thesis
    proof (cases "gl (polls w) d c")
      case (Inl e)
      with True show ?thesis
        by (subst aguardar_loop.simps) (simp add: Let_def same_but_polling_def print_def)
    next
      case (Inr response)
      let ?w2 = "w\<lparr>ticks := Suc (ticks w), polls := Suc (polls w)\<rparr>"
      consider (active) "dict_get response ''status'' = JStr ''ACTIVE''"
        | (failed) "dict_get response ''status'' = JStr ''FAILED''
                    \<or> dict_get response ''status'' = JStr ''CANCELLED''"
        | (pending) "dict_get response ''status'' \<noteq> JStr ''ACTIVE''"
            "dict_get response ''status'' \<noteq> JStr ''FAILED''"
            "dict_get response ''status'' \<noteq> JStr ''CANCELLED''"
        by blast
      then show ?thesis
      proof cases
        case active
        with True Inr show ?thesis
          by (subst aguardar_loop.simps) (simp add: Let_def same_but_polling_def)
      next
        case failed
        with True Inr show ?thesis
          by (subst aguardar_loop.simps) (auto simp add: Let_def same_but_polling_def print_def)
      next
        case pending
        from Suc.hyps(2) Suc.prems have "x = m - ticks ?w2" "ticks ?w2 \<le> m" by simp_all
        from Suc.hyps(1) [OF this Suc.prems(2)] obtain r w' where
          "aguardar_loop clock gl c d T s ?w2 = Some (r, w')" "same_but_polling ?w2 w'"
          by blast
        moreover have "aguardar_loop clock gl c d T s w = aguardar_loop clock gl c d T s ?w2"
          using True Inr pending by (subst aguardar_loop.simps) (simp add: Let_def)
        ultimately show ?thesis by (auto simp: same_but_polling_def)
      qed
    qed
  qed
qed

lemma aguardar_returns:
  assumes "advancing clock T"
  shows "\<exists>r w'. aguardar_changeset_completion clock gl c d T w = Some (r, w')
           \<and> same_but_polling w w'"
proof -
  from assms obtain m where "ticks w < m" "T \<le> clock m - clock (ticks w)"
    unfolding advancing_def by blast
  then have "ticks (w\<lparr>ticks := Suc (ticks w)\<rparr>) \<le> m" by simp
  from aguardar_loop_returns [where clock = clock and s = "clock (ticks w)" and T = T
         and m = m and w = "w\<lparr>ticks := Suc (ticks w)\<rparr>" and gl = gl and c = c and d = d,
         OF this \<open>T \<le> clock m - clock (ticks w)\<close>]
  show ?thesis
    by (auto simp: aguardar_changeset_completion_def same_but_polling_def)
qed

lemma republicar_asset_returns:
  assumes "advancing clock 300"
  shows "\<exists>b w'. republicar_asset clock gl cr a d w = Some (b, w')
           \<and> requested w' = requested w @ [a]
           \<and> filter is_report (printed w') = filter is_report (printed w)"
proof (cases "cr (length (requested w)) d a")
  case (Inl e)
  then show ?thesis by (auto simp: republicar_asset_def print_def)
next
  case (Inr response)
  show ?thesis
  proof (cases "map_of response ''listingId''")
    case None
    with Inr show ?thesis by (auto simp: republicar_asset_def print_def)
  next
    case (Some cid)
    from aguardar_returns [OF assms, of gl cid d "w\<lparr>requested := requested w @ [a]\<rparr>"]
    obtain r w' where
      "aguardar_changeset_completion clock gl cid d 300 (w\<lparr>requested := requested w @ [a]\<rparr>)
         = Some (r, w')"
      "same_but_polling (w\<lparr>requested := requested w @ [a]\<rparr>) w'"
      by blast
    with Inr Some show ?thesis
      by (cases r) (auto simp: republicar_asset_def print_def same_but_polling_def Let_def)
  qed
qed

lemma reported_filter: "reported (filter is_report ms) = reported ms"
proof (induction ms)
  case Nil
  then show ?case by simp
next
  case (Cons m ms)
  then show ?case by (cases m) (simp_all add: reported_def)
qed

lemma reported_append: "reported (ms @ ns) = reported ms @ reported ns"
  by (simp add: reported_def)

lemma reported_Cons: "reported (m # ms) = report_of m @ reported ms"
  by (simp add: reported_def)

lemma reported_Nil: "reported [] = []"
  by (simp add: reported_def)

lemma republished_filter:
  "filter (\<lambda>m. \<exists>a. m = Republished a) (filter is_report ms)
     = filter (\<lambda>m. \<exists>a. m = Republished a) ms"
  by (induction ms) auto

lemma republish_loop_returns:
  assumes "advancing clock 300"
  shows "\<exists>count' w'. republish_loop clock gl cr d n count ids w = Some (count', w')
           \<and> requested w' = requested w @ ids
           \<and> reported (printed w')
               = reported (printed w) @ ids
           \<and> count' + length (filter (\<lambda>m. \<exists>a. m = Republished a) (printed w))
               = count + length (filter (\<lambda>m. \<exists>a. m = Republished a) (printed w'))"
proof (induction ids arbitrary: count w)
  case Nil
  then show ?case by simp
next
  case (Cons a ids)
  from republicar_asset_returns [OF assms, of gl cr a d w] obtain b w1 where
    r: "republicar_asset clock gl cr a d w = Some (b, w1)"
    "requested w1 = requested w @ [a]"
    "filter is_report (printed w1) = filter is_report (printed w)"
    by blast
  from r(3) have same: "filter (\<lambda>m. \<exists>a. m = Republished a) (printed w1)
      = filter (\<lambda>m. \<exists>a. m = Republished a) (printed w)"
    by (metis republished_filter)
  from r(3) have same': "reported (printed w1)
      = reported (printed w)"
    by (metis reported_filter)
  show ?case
  proof (cases b)
    case True
    let ?w = "print (Republished a) (print (Progress (Suc count) n) w1)"
    from Cons.IH [of "Suc count" ?w] obtain count' w' where
      "republish_loop clock gl cr d n (Suc count) ids ?w = Some (count', w')"
      "requested w' = requested ?w @ ids"
      "reported (printed w')
         = reported (printed ?w) @ ids"
      "count' + length (filter (\<lambda>m. \<exists>a. m = Republished a) (printed ?w))
         = Suc count + length (filter (\<lambda>m. \<exists>a. m = Republished a) (printed w'))"
      by blast
    with r True same same' show ?thesis
      by (simp add: print_def reported_append reported_Cons reported_Nil)
  next
    case False
    let ?w = "print (RepublishFailed a) w1"
    from Cons.IH [of count ?w] obtain count' w' where
      "republish_loop clock gl cr d n count ids ?w = Some (count', w')"
      "requested w' = requested ?w @ ids"
      "reported (printed w')
         = reported (printed ?w) @ ids"
      "count' + length (filter (\<lambda>m. \<exists>a. m = Republished a) (printed ?w))
         = count + length (filter (\<lambda>m. \<exists>a. m = Republished a) (printed w'))"
      by blast
    with r False same same' show ?thesis
      by (simp add: print_def reported_append reported_Cons reported_Nil)
  qed
qed

lemma steady_clock_advancing: "advancing (steady_clock 100) 300"
  unfolding advancing_def
proof
  fix k
  have "k < k + 3 \<and> (300::real) \<le> steady_clock 100 (k + 3) - steady_clock 100 k"
    by (simp add: steady_clock_def)
  then show "\<exists>m>k. 300 \<le> steady_clock 100 m - steady_clock 100 k" by blast
qed

lemma empty_search_listing: "list_assets_ids empty_search d p = Some (Inr [])"
  unfolding list_assets_ids_def
  by (subst list_assets_loop.simps) (simp add: empty_search_def page_items_def truthy_def)

lemma two_page_search_listing:
  "list_assets_ids two_page_search d p
     = Some (Inr [JStr ''asset_1'', JStr ''asset_2'', JStr ''asset_3''])"
proof -
  have "paging two_page_search d p 0 None [first_page, last_page] None"
    by (simp add: two_page_search_def truthy_def request_token_def first_page_def last_page_def)
  moreover have "map (\<lambda>page. identifiers (page_items page)) [first_page, last_page]
              = map Inr [[JStr ''asset_1'', JStr ''asset_2''], [JStr ''asset_3'']]"
    by (simp add: page_items_def first_page_def last_page_def item_identifier_def)
  ultimately show ?thesis
    unfolding list_assets_ids_def
    using list_assets_loop_paging [of two_page_search d p 0 None "[first_page, last_page]" None
        "[[JStr ''asset_1'', JStr ''asset_2''], [JStr ''asset_3'']]" "[]"]
    by simp
qed

section \<open>Facts about frames and the backup\<close>

lemma data_frame_row: "length (frows (data_frame x)) = 1"
  by (cases x) (simp_all add: data_frame_def)

lemma data_frame_labelled: "labelled (data_frame x)"
proof (cases x)
  case (JArr vs)
  have "fst ` set (zip (map (\<lambda>i. JNum (int i)) [0..<length vs]) vs)
          \<subseteq> set (map (\<lambda>i. JNum (int i)) [0..<length vs])"
    by (auto dest: set_zip_leftD)
  with JArr show ?thesis by (simp add: data_frame_def labelled_def)
next
  case (JObj d)
  have "fst ` set (map (\<lambda>p. (JStr (fst p), snd p)) d) = set (map (\<lambda>p. JStr (fst p)) d)"
    by (simp add: image_image)
  with JObj show ?thesis by (simp add: data_frame_def labelled_def)
qed (simp_all add: data_frame_def labelled_def)

lemma filter_content_output_frame:
  assumes "filter_content_output loads a nm = (Inr f, ms)"
  shows "\<exists>x. f = data_frame x"
proof (cases "formsOutput a")
  case None
  with assms show ?thesis by (simp add: filter_content_output_def)
next
  case (Some forms)
  show ?thesis
  proof (cases "named_contents nm forms")
    case (Inl e)
    with assms Some show ?thesis by (simp add: filter_content_output_def)
  next
    case (Inr cs)
    show ?thesis
    proof (cases cs)
      case Nil
      with assms Some Inr show ?thesis by (auto simp: filter_content_output_def)
    next
      case (Cons c rest)
      show ?thesis
      proof (cases c)
        case (JStr s)
        with assms Some Inr Cons show ?thesis
          by (cases "loads s") (auto simp: filter_content_output_def)
      qed (use assms Some Inr Cons in \<open>simp_all add: filter_content_output_def\<close>)
    qed
  qed
qed

lemma filter_content_output_row:
  "filter_content_output loads a nm = (Inr f, ms) \<Longrightarrow> length (frows f) = 1 \<and> labelled f"
  by (auto dest!: filter_content_output_frame simp: data_frame_row data_frame_labelled)

lemma merge_on_index_Inr:
  assumes "merge_on_index l r = Inr f"
  shows "f = \<lparr> columns = map (relabel (filter (\<lambda>c. c \<in> set (columns r)) (columns l)) ''_x'') (columns l)
                       @ map (relabel (filter (\<lambda>c. c \<in> set (columns r)) (columns l)) ''_y'') (columns r),
               frows = map (\<lambda>(a, b).
                   map (\<lambda>p. (relabel (filter (\<lambda>c. c \<in> set (columns r)) (columns l)) ''_x'' (fst p), snd p)) a
                   @ map (\<lambda>p. (relabel (filter (\<lambda>c. c \<in> set (columns r)) (columns l)) ''_y'' (fst p), snd p)) b)
                 (zip (frows l) (frows r)) \<rparr>"
proof -
  let ?ov = "filter (\<lambda>c. c \<in> set (columns r)) (columns l)"
  let ?cols = "map (relabel ?ov ''_x'') (columns l) @ map (relabel ?ov ''_y'') (columns r)"
  have d: "distinct ?cols"
  proof (rule ccontr)
    assume "\<not> distinct ?cols"
    then have "merge_on_index l r = Inl MergeError"
      unfolding merge_on_index_def Let_def by (rule if_P)
    with assms show False by simp
  qed
  have "merge_on_index l r = Inr \<lparr> columns = ?cols,
               frows = map (\<lambda>(a, b). map (\<lambda>p. (relabel ?ov ''_x'' (fst p), snd p)) a
                                   @ map (\<lambda>p. (relabel ?ov ''_y'' (fst p), snd p)) b)
                 (zip (frows l) (frows r)) \<rparr>"
    unfolding merge_on_index_def Let_def using d by (subst if_not_P) (blast, rule refl)
  with assms show ?thesis by simp
qed

lemma merge_on_index_rows:
  "merge_on_index l r = Inr f \<Longrightarrow> length (frows f) = min (length (frows l)) (length (frows r))"
  by (drule merge_on_index_Inr) simp

lemma merge_on_index_labelled:
  assumes "merge_on_index l r = Inr f" "labelled l" "labelled r"
  shows "labelled f"
proof -
  define fx where "fx = relabel (filter (\<lambda>c. c \<in> set (columns r)) (columns l)) ''_x''"
  define fy where "fy = relabel (filter (\<lambda>c. c \<in> set (columns r)) (columns l)) ''_y''"
  define pair where "pair = (\<lambda>ab :: (json \<times> json) list \<times> (json \<times> json) list.
       map (\<lambda>p. (fx (fst p), snd p)) (fst ab) @ map (\<lambda>p. (fy (fst p), snd p)) (snd ab))"
  have eq: "f = \<lparr> columns = map fx (columns l) @ map fy (columns r),
                   frows = map pair (zip (frows l) (frows r)) \<rparr>"
    unfolding fx_def fy_def pair_def
    using merge_on_index_Inr [OF assms(1)] by (simp add: case_prod_beta)
  have c: "set (columns f) = fx ` set (columns l) \<union> fy ` set (columns r)"
    by (subst eq) simp
  have r: "set (frows f) = pair ` set (zip (frows l) (frows r))"
    by (subst eq) simp
  show ?thesis
    unfolding labelled_def
  proof
    fix row assume "row \<in> set (frows f)"
    then obtain ab where ab: "ab \<in> set (zip (frows l) (frows r))" and row: "row = pair ab"
      unfolding r by (rule imageE)
    have "fst ab \<in> set (frows l)" "snd ab \<in> set (frows r)"
      using ab by (metis prod.collapse set_zip_leftD, metis prod.collapse set_zip_rightD)
    with assms(2,3) have "fst ` set (fst ab) \<subseteq> set (columns l)"
      "fst ` set (snd ab) \<subseteq> set (columns r)"
      unfolding labelled_def by blast+
    then have "fx ` fst ` set (fst ab) \<subseteq> fx ` set (columns l)"
      "fy ` fst ` set (snd ab) \<subseteq> fy ` set (columns r)"
      by blast+
    then have sub: "fx ` fst ` set (fst ab) \<union> fy ` fst ` set (snd ab)
                 \<subseteq> fx ` set (columns l) \<union> fy ` set (columns r)"
      by (rule Un_mono)
    have "fst ` set row = fx ` fst ` set (fst ab) \<union> fy ` fst ` set (snd ab)"
      unfolding row pair_def by (simp add: image_Un image_image)
    with sub show "fst ` set row \<subseteq> set (columns f)"
      unfolding c by (simp only:)
  qed
qed

lemma select_column_rows: "length (frows (select_column c f)) = length (frows f)"
  by (simp add: select_column_def)

lemma select_column_labelled: "labelled (select_column c f)"
  unfolding select_column_def labelled_def by simp blast

lemma set_column_rows: "length (frows (set_column c v f)) = length (frows f)"
  by (simp add: set_column_def)

lemma set_column_labelled: "labelled f \<Longrightarrow> labelled (set_column c v f)"
  unfolding set_column_def labelled_def by (simp add: image_Un) blast

lemma and_then_fst:
  assumes "fst (and_then r k) = Inr y"
  obtains x where "fst r = Inr x" "fst (k x) = Inr y"
  using assms by (cases "fst r") (simp_all add: and_then_def)

lemma create_metadata_df_parts:
  assumes "create_metadata_df loads a = (Inr f, ms)"
  obtains f1 f2 f3 g g' where
    "fst (filter_content_output loads a ''seguranca_privacidade'') = Inr f1"
    "fst (filter_content_output loads a ''dominio_de_dados'') = Inr f2"
    "fst (filter_content_output loads a ''GlueTableForm'') = Inr f3"
    "merge_on_index f1 f2 = Inr g"
    "(if JStr ''tableName'' \<in> set (columns f3)
      then merge_on_index g (select_column (JStr ''tableName'') f3)
      else Inr g) = Inr g'"
    "set_column (JStr descricao)
        (JStr (case description a of None \<Rightarrow> [] | Some d \<Rightarrow> d)) g' = f"
proof -
  from assms have "fst (create_metadata_df loads a) = Inr f" by simp
  then show thesis
    unfolding create_metadata_df_def
    apply (elim and_then_fst)
    apply (simp only: fst_conv sum.inject)
    apply (rule that)
         apply assumption+
    done
qed

lemma create_metadata_df_row:
  assumes "create_metadata_df loads a = (Inr f, ms)"
  shows "length (frows f) = 1 \<and> labelled f"
  using assms
proof (cases rule: create_metadata_df_parts)
  case (1 f1 f2 f3 g g')
  have r: "length (frows f1) = 1" "labelled f1" "length (frows f2) = 1" "labelled f2"
    "length (frows f3) = 1" "labelled f3"
    using 1(1,2,3) filter_content_output_row
    by (metis prod.collapse)+
  from 1(4) r have g: "length (frows g) = 1" "labelled g"
    by (auto dest: merge_on_index_rows merge_on_index_labelled)
  have g': "length (frows g') = 1 \<and> labelled g'"
  proof (cases "JStr ''tableName'' \<in> set (columns f3)")
    case True
    with 1(5) have m: "merge_on_index g (select_column (JStr ''tableName'') f3) = Inr g'" by simp
    from merge_on_index_rows [OF m] merge_on_index_labelled [OF m] g r
    show ?thesis by (simp add: select_column_rows select_column_labelled)
  next
    case False
    with 1(5) g show ?thesis by simp
  qed
  with 1(6) show ?thesis by (auto simp: set_column_rows set_column_labelled)
qed

lemma backup_loop_frames:
  assumes "backup_loop loads ga d ids acc = (Inr out, msgs)"
  shows "\<exists>fs. length fs = length ids
           \<and> (\<forall>i<length ids. \<exists>a ms. ga d (ids ! i) = Inr a
                  \<and> create_metadata_df loads a = (Inr (fs ! i), ms))
           \<and> frows out = frows acc @ concat (map frows fs)
           \<and> set (columns out) = set (columns acc) \<union> (\<Union>f\<in>set fs. set (columns f))"
  using assms
proof (induction ids arbitrary: acc msgs)
  case Nil
  then show ?case by simp
next
  case (Cons x rest)
  from Cons.prems obtain a where a: "ga d x = Inr a"
    by (cases "ga d x") simp_all
  obtain r ms1 where c: "create_metadata_df loads a = (r, ms1)"
    by (cases "create_metadata_df loads a")
  with Cons.prems a obtain f where f: "r = Inr f"
    by (cases r) simp_all
  obtain r2 ms2 where l: "backup_loop loads ga d rest (concat_frames acc f) = (r2, ms2)"
    by (cases "backup_loop loads ga d rest (concat_frames acc f)")
  with Cons.prems a c f have "r2 = Inr out" by simp
  with l have "backup_loop loads ga d rest (concat_frames acc f) = (Inr out, ms2)" by simp
  from Cons.IH [OF this] obtain fs where
    fs: "length fs = length rest"
    "\<forall>i<length rest. \<exists>a ms. ga d (rest ! i) = Inr a
           \<and> create_metadata_df loads a = (Inr (fs ! i), ms)"
    "frows out = frows (concat_frames acc f) @ concat (map frows fs)"
    "set (columns out) = set (columns (concat_frames acc f)) \<union> (\<Union>f\<in>set fs. set (columns f))"
    by blast
  have each: "\<forall>i<length (x # rest). \<exists>a ms. ga d ((x # rest) ! i) = Inr a
                  \<and> create_metadata_df loads a = (Inr ((f # fs) ! i), ms)"
  proof (intro allI impI)
    fix i assume "i < length (x # rest)"
    show "\<exists>a ms. ga d ((x # rest) ! i) = Inr a
                  \<and> create_metadata_df loads a = (Inr ((f # fs) ! i), ms)"
    proof (cases i)
      case 0
      with a c f show ?thesis by simp
    next
      case (Suc j)
      with \<open>i < length (x # rest)\<close> fs(2) show ?thesis by simp
    qed
  qed
  have "frows out = frows acc @ concat (map frows (f # fs))"
    using fs(3) by (simp add: concat_frames_def)
  moreover have "set (columns out) = set (columns acc) \<union> (\<Union>f\<in>set (f # fs). set (columns f))"
    using fs(4) by (auto simp: concat_frames_def)
  ultimately show ?case using fs(1) each
    by (intro exI [of _ "f # fs"]) simp
qed

lemma concat_single_rows:
  assumes "\<forall>f\<in>set fs. length (frows f) = 1"
  shows "length (concat (map frows fs)) = length fs
         \<and> (\<forall>i<length fs. frows (fs ! i) = [concat (map frows fs) ! i])"
  using assms
proof (induction fs)
  case Nil
  then show ?case by simp
next
  case (Cons f fs)
  then obtain row where row: "frows f = [row]"
    by (cases "frows f") auto
  from Cons have ih: "length (concat (map frows fs)) = length fs"
    "\<forall>i<length fs. frows (fs ! i) = [concat (map frows fs) ! i]"
    by simp_all
  show ?case
  proof (intro conjI allI impI)
    show "length (concat (map frows (f # fs))) = length (f # fs)"
      using row ih(1) by simp
  next
    fix i assume "i < length (f # fs)"
    then show "frows ((f # fs) ! i) = [concat (map frows (f # fs)) ! i]"
      using row ih(2) by (cases i) simp_all
  qed
qed

lemma named_contents_none:
  "\<forall>form\<in>set forms. dict_get form ''formName'' \<noteq> JStr nm \<Longrightarrow> named_contents nm forms = Inr []"
  by (induction forms) simp_all

section \<open>Properties of the metadata-form merger\<close>

text \<open>
  C1 (as amended). When the normalised form list of the fetched asset has a form of the
  candidate's type, and both the first such form's decoded content and the candidate's
  decoded content are mappings, \<open>add_metadata_form\<close> submits one revision. Its form list
  is as long as the asset's, has as many forms of that type as before (so exactly one
  when there was exactly one), and the first form of that type now carries the
  serialised merge of the existing content with the candidate's; for dictionaries the
  merge maps every key of the candidate to the candidate's value and every other key to
  the existing value.
\<close>

theorem merge_updates_matching_form:
  assumes "get_asset d i = Inr a" and "name a = Some nm"
    and "typeIdentifier cand = Some t"
    and "parse_new_content loads cand = Inr (JObj n)"
    and "find (has_type t) (normalize_forms dumps (asset_forms a)) = Some f"
    and "existing_content loads f = JObj e"
  shows "\<exists>r. fst (snd (add_metadata_form loads dumps get_asset create d i cand)) = [r]
          \<and> length (rev_formsInput r) = length (asset_forms a)
          \<and> length (filter (has_type t) (rev_formsInput r))
              = length (filter (has_type t) (normalize_forms dumps (asset_forms a)))
          \<and> find (has_type t) (rev_formsInput r)
              = Some (dict_set ''content'' (JStr (dumps (JObj (dict_unpack e n)))) f)
          \<and> (distinct (map fst e) \<longrightarrow> distinct (map fst n) \<longrightarrow>
                map_of (dict_unpack e n) = map_of e ++ map_of n)"
proof -
  have mc: "merged_content (existing_content loads f) (JObj n) = Inr (dict_unpack e n)"
    using assms(6) by (simp add: merged_content_def)
  let ?f = "dict_set ''content'' (JStr (dumps (JObj (dict_unpack e n)))) f"
  from merge_forms_found [OF assms(3,4,5) mc] obtain pre post where
    *: "normalize_forms dumps (asset_forms a) = pre @ f # post" "find (has_type t) pre = None"
    "merge_forms loads dumps (asset_forms a) cand = Inr (pre @ ?f # post)"
    by blast
  have ht: "has_type t f" using assms(5) by (rule find_Some_has)
  then have ht': "has_type t ?f" by (simp add: has_type_set_content)
  let ?r = "\<lparr> rev_domainIdentifier = d, rev_identifier = i, rev_name = nm,
              rev_formsInput = pre @ ?f # post,
              rev_description = (case description a of None \<Rightarrow> [] | Some x \<Rightarrow> x) \<rparr>"
  have "fst (snd (add_metadata_form loads dumps get_asset create d i cand)) = [?r]"
    using add_metadata_form_run [where get_asset = get_asset and create = create, OF assms(1,2) *(3)]
    by (simp add: Let_def split: option.splits)
  moreover have "length (rev_formsInput ?r) = length (asset_forms a)"
    using *(1) length_normalize_forms [of dumps "asset_forms a"] by simp
  moreover have "length (filter (has_type t) (rev_formsInput ?r))
      = length (filter (has_type t) (normalize_forms dumps (asset_forms a)))"
    using *(1) ht ht' by simp
  moreover have "find (has_type t) (rev_formsInput ?r) = Some ?f"
    using *(2) ht' by (simp add: find_append_hit)
  ultimately show ?thesis
    by (intro exI [of _ ?r]) (simp add: map_of_dict_unpack)
qed

text \<open>
  The specification's scenario: existing content \<^verbatim>\<open>{"owner":"A"}\<close> merged with the candidate
  content \<^verbatim>\<open>{"owner":"B","team":"X"}\<close> gives one form with \<^verbatim>\<open>{"owner": "B", "team": "X"}\<close>.
\<close>

theorem merge_updates_matching_form_witness:
  \<open>\<exists>r. fst (snd (add_metadata_form json_loads json_dumps (\<lambda>d i. Inr scenario_asset) (\<lambda>r. None)
                    ''dzd_1'' ''asset_1'' scenario_candidate)) = [r]
      \<and> length (rev_formsInput r) = 1
      \<and> length (filter (has_type ''ownership'') (rev_formsInput r)) = 1
      \<and> find (has_type ''ownership'') (rev_formsInput r)
          = Some [(''typeIdentifier'', JStr ''ownership''),
                  (''content'', JStr ''{"owner": "B", "team": "X"}'')]\<close>
proof -
  let ?n = "[(''owner'', JStr ''B''), (''team'', JStr ''X'')]"
  let ?e = "[(''owner'', JStr ''A'')]"
  have h1: "(\<lambda>d i. Inr scenario_asset) ''dzd_1'' ''asset_1'' = (Inr scenario_asset :: error + asset)"
    by simp
  have h2: "name scenario_asset = Some ''orders''" by (simp add: scenario_asset_def)
  have h3: "typeIdentifier scenario_candidate = Some ''ownership''"
    by (simp add: scenario_candidate_def)
  have h4: "parse_new_content json_loads scenario_candidate = Inr (JObj ?n)"
    by (simp add: parse_new_content_def scenario_candidate_def)
  have h5: "find (has_type ''ownership'') (normalize_forms json_dumps (asset_forms scenario_asset))
              = Some scenario_form"
    by code_simp
  have h6: "existing_content json_loads scenario_form = JObj ?e" by code_simp
  have e1: \<open>dict_set ''content'' (JStr (json_dumps (JObj (dict_unpack ?e ?n)))) scenario_form
              = [(''typeIdentifier'', JStr ''ownership''),
                  (''content'', JStr ''{"owner": "B", "team": "X"}'')]\<close>
    by code_simp
  have e2: "length (asset_forms scenario_asset) = 1" by code_simp
  have e3: "length (filter (has_type ''ownership'')
              (normalize_forms json_dumps (asset_forms scenario_asset))) = 1"
    by code_simp
  from merge_updates_matching_form
         [where get_asset = "\<lambda>d i. Inr scenario_asset" and create = "\<lambda>r. None"
            and loads = json_loads and dumps = json_dumps, OF h1 h2 h3 h4 h5 h6]
  show ?thesis unfolding e1 e2 e3 by blast
qed

text \<open>
  An asset with two forms of type \<^verbatim>\<open>ownership\<close> keeps both: the submitted form list has
  two forms of the candidate's type, not one.
\<close>

theorem merge_keeps_duplicates_counterexample:
  "map (\<lambda>r. length (filter (has_type ''ownership'') (rev_formsInput r)))
     (fst (snd (add_metadata_form json_loads json_dumps (\<lambda>d i. Inr twin_asset) (\<lambda>r. None)
                  ''dzd_1'' ''asset_1'' scenario_candidate)))
   = [2]"
  by code_simp

text \<open>
  C2 (as amended). Every revision that \<open>add_metadata_form\<close> submits carries the name that
  the preceding \<open>get_asset\<close> call returned, and the description it returned when it
  returned one; when the asset has no description the revision carries the empty
  string.
\<close>

theorem revision_keeps_name_and_description:
  assumes "r \<in> set (fst (snd (add_metadata_form loads dumps get_asset create d i cand)))"
  shows "\<exists>a. get_asset d i = Inr a \<and> name a = Some (rev_name r)
           \<and> rev_description r = (case description a of None \<Rightarrow> [] | Some x \<Rightarrow> x)"
  using assms
  by (auto simp: add_metadata_form_def Let_def split: sum.splits option.splits)

theorem revision_keeps_name_and_description_witness:
  \<open>(\<lparr> rev_domainIdentifier = ''dzd_1'', rev_identifier = ''asset_1'', rev_name = ''orders'',
        rev_formsInput = [[(''typeIdentifier'', JStr ''ownership''),
                           (''content'', JStr ''{"owner": "B", "team": "X"}'')]],
        rev_description = ''Orders table'' \<rparr>
      \<in> set (fst (snd (add_metadata_form json_loads json_dumps (\<lambda>d i. Inr scenario_asset)
                          (\<lambda>r. None) ''dzd_1'' ''asset_1'' scenario_candidate))))
    \<and> (\<exists>a. Inr scenario_asset = (Inr a :: error + asset) \<and> name a = Some ''orders''
           \<and> ''Orders table'' = (case description a of None \<Rightarrow> [] | Some x \<Rightarrow> x))\<close>
proof -
  let ?r = \<open>\<lparr> rev_domainIdentifier = ''dzd_1'', rev_identifier = ''asset_1'', rev_name = ''orders'',
        rev_formsInput = [[(''typeIdentifier'', JStr ''ownership''),
                           (''content'', JStr ''{"owner": "B", "team": "X"}'')]],
        rev_description = ''Orders table'' \<rparr>\<close>
  have h: "?r \<in> set (fst (snd (add_metadata_form json_loads json_dumps (\<lambda>d i. Inr scenario_asset)
                          (\<lambda>r. None) ''dzd_1'' ''asset_1'' scenario_candidate)))"
    by code_simp
  from revision_keeps_name_and_description [OF h] h show ?thesis by simp
qed

text \<open>
  An asset without description: \<open>get_asset\<close> returns no description, the revision carries
  the empty string.
\<close>

theorem revision_description_counterexample:
  "description twin_asset = None
   \<and> map (\<lambda>r. Some (rev_description r) = description twin_asset)
        (fst (snd (add_metadata_form json_loads json_dumps (\<lambda>d i. Inr twin_asset) (\<lambda>r. None)
                     ''dzd_1'' ''asset_1'' scenario_candidate)))
      = [False]"
  by code_simp

text \<open>
  C3 (as amended). Once \<open>get_asset\<close> has returned an asset that has a name,
  \<open>add_metadata_form\<close> raises the content-decoding error \<open>ValueError\<close>, with no
  revision submitted, if and only if the candidate has no content or its content is text
  that fails to decode. When the content of the matching existing form is text that
  fails to decode, nothing is raised for it: the form is merged as if its content were
  the empty mapping, and with a catalog that accepts the revision the function returns
  normally.
\<close>

theorem strict_candidate_lenient_existing:
  "(get_asset d i = Inr a \<longrightarrow> name a = Some nm \<longrightarrow>
      (add_metadata_form loads dumps get_asset create d i cand = (Inl ValueError, [], [])
        \<longleftrightarrow> content cand = None \<or> (\<exists>s. content cand = Some (JStr s) \<and> loads s = None)))
   \<and> (get_asset d i = Inr a \<longrightarrow> name a = Some nm \<longrightarrow> typeIdentifier cand = Some t \<longrightarrow>
      parse_new_content loads cand = Inr (JObj n) \<longrightarrow>
      find (has_type t) (normalize_forms dumps (asset_forms a)) = Some f \<longrightarrow>
      map_of f ''content'' = Some (JStr s') \<longrightarrow> loads s' = None \<longrightarrow>
      (\<exists>r. add_metadata_form loads dumps get_asset (\<lambda>r. None) d i cand
              = (Inr (), [r], [FormAdded t nm])
          \<and> find (has_type t) (rev_formsInput r)
              = Some (dict_set ''content'' (JStr (dumps (JObj (dict_unpack [] n)))) f)))"
proof (intro conjI impI)
  assume g: "get_asset d i = Inr a" "name a = Some nm"
  show "add_metadata_form loads dumps get_asset create d i cand = (Inl ValueError, [], [])
        \<longleftrightarrow> content cand = None \<or> (\<exists>s. content cand = Some (JStr s) \<and> loads s = None)"
  proof
    assume bad: "content cand = None \<or> (\<exists>s. content cand = Some (JStr s) \<and> loads s = None)"
    then have "parse_new_content loads cand = Inl ValueError"
      by (auto simp: parse_new_content_def)
    with g show "add_metadata_form loads dumps get_asset create d i cand = (Inl ValueError, [], [])"
      by (simp add: add_metadata_form_def merge_forms_def)
  next
    assume raised: "add_metadata_form loads dumps get_asset create d i cand
                      = (Inl ValueError, [], [])"
    show "content cand = None \<or> (\<exists>s. content cand = Some (JStr s) \<and> loads s = None)"
    proof (rule ccontr)
      assume good: "\<not> (content cand = None \<or> (\<exists>s. content cand = Some (JStr s) \<and> loads s = None))"
      then obtain v where v: "content cand = Some v" by auto
      have "\<exists>new. parse_new_content loads cand = Inr new"
      proof (cases v)
        case (JStr s)
        with good v obtain x where "loads s = Some x" by auto
        with v JStr show ?thesis by (simp add: parse_new_content_def)
      qed (use v in \<open>simp_all add: parse_new_content_def\<close>)
      then obtain new where new: "parse_new_content loads cand = Inr new" ..
      show False
      proof (cases "merge_forms loads dumps (asset_forms a) cand")
        case (Inr out)
        from add_metadata_form_run [where get_asset = get_asset and create = create, OF g Inr]
          raised
        show False by (simp add: Let_def split: option.splits)
      next
        case (Inl e)
        with g raised have e: "e = ValueError" by (simp add: add_metadata_form_def)
        show False
        proof (cases "typeIdentifier cand")
          case None
          with Inl new e show False by (simp add: merge_forms_def)
        next
          case (Some t)
          show False
          proof (cases "find (has_type t) (normalize_forms dumps (asset_forms a))")
            case None
            with Inl new e Some show False
              by (cases "formName cand") (simp_all add: merge_forms_def update_forms_none)
          next
            case found: (Some f)
            show False
            proof (cases "merged_content (existing_content loads f) new")
              case bad: (Inl e')
              then have "e' = TypeError"
                by (auto simp: merged_content_def split: json.splits)
              moreover from update_forms_error [OF found bad, of dumps] Inl new Some
              have "e' = e" by (simp add: merge_forms_def)
              ultimately show False using e by simp
            next
              case ok: (Inr m)
              from merge_forms_found [OF Some new found ok] Inl show False by auto
            qed
          qed
        qed
      qed
    qed
  qed
next
  assume h: "get_asset d i = Inr a" "name a = Some nm" "typeIdentifier cand = Some t"
    "parse_new_content loads cand = Inr (JObj n)"
    "find (has_type t) (normalize_forms dumps (asset_forms a)) = Some f"
    "map_of f ''content'' = Some (JStr s')" "loads s' = None"
  then have ex: "existing_content loads f = JObj []" by (simp add: existing_content_def)
  then have mc: "merged_content (existing_content loads f) (JObj n) = Inr (dict_unpack [] n)"
    by (simp add: merged_content_def)
  let ?f = "dict_set ''content'' (JStr (dumps (JObj (dict_unpack [] n)))) f"
  from merge_forms_found [OF h(3,4,5) mc] obtain pre post where
    *: "find (has_type t) pre = None"
    "merge_forms loads dumps (asset_forms a) cand = Inr (pre @ ?f # post)"
    by blast
  have "has_type t f" using h(5) by (rule find_Some_has)
  then have ht': "has_type t ?f" by (simp add: has_type_set_content)
  let ?r = "\<lparr> rev_domainIdentifier = d, rev_identifier = i, rev_name = nm,
              rev_formsInput = pre @ ?f # post,
              rev_description = (case description a of None \<Rightarrow> [] | Some x \<Rightarrow> x) \<rparr>"
  have "add_metadata_form loads dumps get_asset (\<lambda>r. None) d i cand
          = (Inr (), [?r], [FormAdded t nm])"
    using add_metadata_form_run [where get_asset = get_asset and create = "\<lambda>r. None", OF h(1,2) *(2)] h(3) by simp
  moreover have "find (has_type t) (rev_formsInput ?r) = Some ?f"
    using *(1) ht' by (simp add: find_append_hit)
  ultimately show "\<exists>r. add_metadata_form loads dumps get_asset (\<lambda>r. None) d i cand
              = (Inr (), [r], [FormAdded t nm])
          \<and> find (has_type t) (rev_formsInput r) = Some ?f"
    by blast
qed

text \<open>
  Both directions at concrete candidates: text that is not JSON is refused with
  \<open>ValueError\<close>, the text \<^verbatim>\<open>{"owner": "B", "team": "X"}\<close> is not; and an existing form whose
  content is not JSON is merged as the empty mapping.
\<close>

theorem strict_candidate_lenient_existing_witness:
  \<open>add_metadata_form json_loads json_dumps (\<lambda>d i. Inr scenario_asset) (\<lambda>r. None)
       ''dzd_1'' ''asset_1'' garbled_candidate = (Inl ValueError, [], [])
    \<and> add_metadata_form json_loads json_dumps (\<lambda>d i. Inr scenario_asset) (\<lambda>r. None)
       ''dzd_1'' ''asset_1'' text_candidate \<noteq> (Inl ValueError, [], [])
    \<and> (\<exists>r. add_metadata_form json_loads json_dumps (\<lambda>d i. Inr garbled_asset) (\<lambda>r. None)
              ''dzd_1'' ''asset_1'' scenario_candidate
            = (Inr (), [r], [FormAdded ''ownership'' ''orders''])
          \<and> find (has_type ''ownership'') (rev_formsInput r)
              = Some [(''formName'', JStr ''ownership''), (''content'', JStr ''{"owner": "B", "team": "X"}''),
                      (''typeIdentifier'', JStr ''ownership'')])\<close>
proof -
  let ?n = "[(''owner'', JStr ''B''), (''team'', JStr ''X'')]"
  let ?g = "[(''formName'', JStr ''ownership''), (''content'', JStr ''not json''),
             (''typeIdentifier'', JStr ''ownership'')]"
  have a1: "(\<lambda>d i. Inr scenario_asset) ''dzd_1'' ''asset_1'' = (Inr scenario_asset :: error + asset)"
    by simp
  have a2: "name scenario_asset = Some ''orders''" by (simp add: scenario_asset_def)
  have a3: "content garbled_candidate = None
            \<or> (\<exists>s. content garbled_candidate = Some (JStr s) \<and> json_loads s = None)"
  proof -
    have "json_loads ''{owner'' = None" by code_simp
    then show ?thesis by (simp add: garbled_candidate_def)
  qed
  have a4: "\<not> (content text_candidate = None
            \<or> (\<exists>s. content text_candidate = Some (JStr s) \<and> json_loads s = None))"
  proof -
    have \<open>json_loads ''{"owner": "B", "team": "X"}'' = Some (JObj ?n)\<close> by code_simp
    then show ?thesis by (simp add: text_candidate_def)
  qed
  have b1: "(\<lambda>d i. Inr garbled_asset) ''dzd_1'' ''asset_1'' = (Inr garbled_asset :: error + asset)"
    by simp
  have b2: "name garbled_asset = Some ''orders''" by (simp add: garbled_asset_def)
  have b3: "typeIdentifier scenario_candidate = Some ''ownership''"
    by (simp add: scenario_candidate_def)
  have b4: "parse_new_content json_loads scenario_candidate = Inr (JObj ?n)"
    by (simp add: parse_new_content_def scenario_candidate_def)
  have b5: "find (has_type ''ownership'') (normalize_forms json_dumps (asset_forms garbled_asset))
              = Some ?g"
    by code_simp
  have b6: "map_of ?g ''content'' = Some (JStr ''not json'')" by simp
  have b7: "json_loads ''not json'' = None" by code_simp
  have b8: \<open>dict_set ''content'' (JStr (json_dumps (JObj (dict_unpack [] ?n)))) ?g
             = [(''formName'', JStr ''ownership''), (''content'', JStr ''{"owner": "B", "team": "X"}''),
                (''typeIdentifier'', JStr ''ownership'')]\<close>
    by code_simp
  note inst1 = strict_candidate_lenient_existing
      [where get_asset = "\<lambda>d i. Inr scenario_asset" and loads = json_loads
         and dumps = json_dumps and create = "\<lambda>r. None" and cand = garbled_candidate
         and d = "''dzd_1''" and i = "''asset_1''" and a = scenario_asset and nm = "''orders''"]
  note inst2 = strict_candidate_lenient_existing
      [where get_asset = "\<lambda>d i. Inr scenario_asset" and loads = json_loads
         and dumps = json_dumps and create = "\<lambda>r. None" and cand = text_candidate
         and d = "''dzd_1''" and i = "''asset_1''" and a = scenario_asset and nm = "''orders''"]
  note inst3 = strict_candidate_lenient_existing
      [where get_asset = "\<lambda>d i. Inr garbled_asset" and loads = json_loads
         and dumps = json_dumps and cand = scenario_candidate
         and d = "''dzd_1''" and i = "''asset_1''" and a = garbled_asset and nm = "''orders''"
         and t = "''ownership''" and n = ?n and f = ?g and s' = "''not json''"]
  have p1: "add_metadata_form json_loads json_dumps (\<lambda>d i. Inr scenario_asset) (\<lambda>r. None)
       ''dzd_1'' ''asset_1'' garbled_candidate = (Inl ValueError, [], [])"
    using inst1 a1 a2 a3 by blast
  have p2: "add_metadata_form json_loads json_dumps (\<lambda>d i. Inr scenario_asset) (\<lambda>r. None)
       ''dzd_1'' ''asset_1'' text_candidate \<noteq> (Inl ValueError, [], [])"
    using inst2 a1 a2 a4 by blast
  have p3: "\<exists>r. add_metadata_form json_loads json_dumps (\<lambda>d i. Inr garbled_asset) (\<lambda>r. None)
              ''dzd_1'' ''asset_1'' scenario_candidate
            = (Inr (), [r], [FormAdded ''ownership'' ''orders''])
          \<and> find (has_type ''ownership'') (rev_formsInput r)
              = Some (dict_set ''content'' (JStr (json_dumps (JObj (dict_unpack [] ?n)))) ?g)"
    using inst3 b1 b2 b3 b4 b5 b6 b7 by blast
  from p1 p2 p3 show ?thesis unfolding b8 by blast
qed

text \<open>
  A candidate whose content is the text \<^verbatim>\<open>3\<close> decodes, though not to a mapping; on an
  asset without forms nothing is raised, and the revision carries a form with content
  \<^verbatim>\<open>3\<close>.
\<close>

theorem non_mapping_candidate_counterexample:
  "json_loads ''3'' = Some (JNum 3)
   \<and> add_metadata_form json_loads json_dumps
        (\<lambda>d i. Inr \<lparr> name = Some ''orders'', description = Some ''Orders table'',
                       formsOutput = Some [] \<rparr>)
        (\<lambda>r. None) ''dzd_1'' ''asset_1'' number_candidate
      = (Inr (),
         [\<lparr> rev_domainIdentifier = ''dzd_1'', rev_identifier = ''asset_1'', rev_name = ''orders'',
             rev_formsInput = [[(''formName'', JStr ''ownership''),
                                (''typeIdentifier'', JStr ''ownership''),
                                (''content'', JStr ''3'')]],
             rev_description = ''Orders table'' \<rparr>],
         [FormAdded ''ownership'' ''orders''])"
  by code_simp

text \<open>
  C4. When the merge produces a form list for an input whose normalised forms have
  pairwise distinct \<^verbatim>\<open>typeIdentifier\<close> values, the produced forms have pairwise distinct
  \<^verbatim>\<open>typeIdentifier\<close> values too; the produced list is as long as the input when a
  normalised form has the candidate's type, and one longer otherwise.
\<close>

theorem merge_keeps_types_distinct:
  assumes "merge_forms loads dumps forms cand = Inr out"
    and "typeIdentifier cand = Some t"
    and "distinct (map (\<lambda>f. dict_get f ''typeIdentifier'') (normalize_forms dumps forms))"
  shows "distinct (map (\<lambda>f. dict_get f ''typeIdentifier'') out)
         \<and> length out = (if \<exists>f\<in>set (normalize_forms dumps forms). has_type t f
                          then length forms else length forms + 1)"
  using assms(1)
proof (cases rule: merge_forms_cases)
  case (found t' new f m pre post)
  with assms(2) have t: "t' = t" by simp
  have "map (\<lambda>f. dict_get f ''typeIdentifier'') out
          = map (\<lambda>f. dict_get f ''typeIdentifier'') (normalize_forms dumps forms)"
    using found(5,7) by (simp add: type_set_content)
  moreover have "length out = length forms"
    using found(5,7) length_normalize_forms [of dumps forms] by simp
  moreover have "has_type t f" using found(3) t by (auto dest: find_Some_has)
  then have "\<exists>f\<in>set (normalize_forms dumps forms). has_type t f"
    using found(5) by auto
  ultimately show ?thesis using assms(3) by simp
next
  case (fresh t' new fname)
  with assms(2) have t: "t' = t" by simp
  from fresh(3) t have none: "\<forall>f\<in>set (normalize_forms dumps forms). \<not> has_type t f"
    by (simp add: find_None_iff)
  then have "JStr t \<notin> (\<lambda>f. dict_get f ''typeIdentifier'') ` set (normalize_forms dumps forms)"
    by (auto simp: has_type_def)
  with assms(3) fresh(5) t none show ?thesis
    by (simp add: length_normalize_forms dict_get_def)
qed

theorem merge_keeps_types_distinct_witness:
  \<open>(merge_forms json_loads json_dumps [scenario_form] scenario_candidate
       = Inr [[(''typeIdentifier'', JStr ''ownership''),
               (''content'', JStr ''{"owner": "B", "team": "X"}'')]]
     \<and> distinct (map (\<lambda>f. dict_get f ''typeIdentifier'')
          [[(''typeIdentifier'', JStr ''ownership''),
            (''content'', JStr ''{"owner": "B", "team": "X"}'')]])
     \<and> length [[(''typeIdentifier'', JStr ''ownership''),
                 (''content'', JStr ''{"owner": "B", "team": "X"}'')]] = length [scenario_form])
    \<and> (merge_forms json_loads json_dumps
          [[(''formName'', JStr ''GlueTableForm''), (''typeName'', JStr ''GlueTable''),
            (''content'', JStr ''{"tableName": "orders"}'')]] scenario_candidate
       = Inr [[(''formName'', JStr ''GlueTableForm''),
               (''content'', JStr ''{"tableName": "orders"}''),
               (''typeIdentifier'', JStr ''GlueTable'')],
              [(''formName'', JStr ''ownership''), (''typeIdentifier'', JStr ''ownership''),
               (''content'', JStr ''{"owner": "B", "team": "X"}'')]]
     \<and> distinct (map (\<lambda>f. dict_get f ''typeIdentifier'')
          [[(''formName'', JStr ''GlueTableForm''),
            (''content'', JStr ''{"tableName": "orders"}''),
            (''typeIdentifier'', JStr ''GlueTable'')],
           [(''formName'', JStr ''ownership''), (''typeIdentifier'', JStr ''ownership''),
            (''content'', JStr ''{"owner": "B", "team": "X"}'')]]))\<close>
proof -
  let ?out1 = \<open>[[(''typeIdentifier'', JStr ''ownership''),
                 (''content'', JStr ''{"owner": "B", "team": "X"}'')]]\<close>
  let ?glue = \<open>[[(''formName'', JStr ''GlueTableForm''), (''typeName'', JStr ''GlueTable''),
                 (''content'', JStr ''{"tableName": "orders"}'')]]\<close>
  let ?out2 = \<open>[[(''formName'', JStr ''GlueTableForm''),
                 (''content'', JStr ''{"tableName": "orders"}''),
                 (''typeIdentifier'', JStr ''GlueTable'')],
                [(''formName'', JStr ''ownership''), (''typeIdentifier'', JStr ''ownership''),
                 (''content'', JStr ''{"owner": "B", "team": "X"}'')]]\<close>
  have t: "typeIdentifier scenario_candidate = Some ''ownership''"
    by (simp add: scenario_candidate_def)
  have m1: "merge_forms json_loads json_dumps [scenario_form] scenario_candidate = Inr ?out1"
    by code_simp
  have d1: "distinct (map (\<lambda>f. dict_get f ''typeIdentifier'')
              (normalize_forms json_dumps [scenario_form]))"
    by code_simp
  have x1: "\<exists>f\<in>set (normalize_forms json_dumps [scenario_form]). has_type ''ownership'' f"
    by code_simp
  have m2: "merge_forms json_loads json_dumps ?glue scenario_candidate = Inr ?out2"
    by code_simp
  have d2: "distinct (map (\<lambda>f. dict_get f ''typeIdentifier'') (normalize_forms json_dumps ?glue))"
    by code_simp
  from merge_keeps_types_distinct [OF m1 t d1] x1 merge_keeps_types_distinct [OF m2 t d2] m1 m2
  show ?thesis by simp
qed

text \<open>
  C5. The merge is idempotent: for a candidate whose content decodes to a dictionary,
  whenever the merge of the candidate into a form list succeeds and the text it wrote
  decodes back to the mapping it was written from, merging the same candidate into the
  result gives the result again, since the candidate's keys overwrite their own values.
\<close>

theorem merge_forms_idempotent:
  assumes new: "parse_new_content loads cand = Inr (JObj n)"
    and dn: "distinct (map fst n)"
    and t: "typeIdentifier cand = Some t"
    and run1: "merge_forms loads dumps forms cand = Inr out"
    and decodes: "case find (has_type t) (normalize_forms dumps forms) of
                 None \<Rightarrow> loads (dumps (JObj n)) = Some (JObj n)
               | Some f \<Rightarrow> (\<forall>e. existing_content loads f = JObj e \<longrightarrow>
                    loads (dumps (JObj (dict_unpack e n))) = Some (JObj (dict_unpack e n)))"
  shows "merge_forms loads dumps out cand = Inr out"
  using run1
proof (cases rule: merge_forms_cases)
  case (found t' new' f m pre post)
  with t new have eqs: "t' = t" "new' = JObj n" by simp_all
  from found(4) eqs obtain e where e: "existing_content loads f = JObj e" "m = dict_unpack e n"
    by (auto simp: merged_content_def split: json.splits)
  let ?s = "dumps (JObj m)"
  let ?f = "dict_set ''content'' (JStr ?s) f"
  from decodes found(3) eqs e have rt: "loads ?s = Some (JObj m)" by simp
  have nf: "\<forall>g\<in>set (normalize_forms dumps forms). is_normalized g"
    by (rule normalize_forms_normalized)
  with found(5) have "\<forall>g\<in>set pre \<union> set post. is_normalized g" "is_normalized f" by auto
  with found(7) have "\<forall>g\<in>set out. is_normalized g"
    by (auto simp: set_content_normalized)
  then have norm: "normalize_forms dumps out = out" by (rule normalize_forms_id)
  have ht: "has_type t ?f" using found(3) eqs by (auto simp: has_type_set_content dest: find_Some_has)
  have fnd: "find (has_type t) (normalize_forms dumps out) = Some ?f"
    using found(6,7) eqs ht norm by (simp add: find_append_hit)
  have mc: "merged_content (existing_content loads ?f) (JObj n) = Inr m"
    using rt e(2) by (simp add: existing_content_set merged_content_def dict_unpack_absorb)
  from merge_forms_found [OF t new fnd mc] obtain pre' post' where
    *: "normalize_forms dumps out = pre' @ ?f # post'" "find (has_type t) pre' = None"
    "merge_forms loads dumps out cand = Inr (pre' @ dict_set ''content'' (JStr ?s) ?f # post')"
    by blast
  have "dict_set ''content'' (JStr ?s) ?f = ?f" by (rule dict_set_twice)
  with * norm show ?thesis by simp
next
  case (fresh t' new' fname)
  with t new have eqs: "t' = t" "new' = JObj n" by simp_all
  let ?s = "dumps (JObj n)"
  let ?f = "[(''formName'', JStr fname), (''typeIdentifier'', JStr t), (''content'', JStr ?s)]"
  from decodes fresh(3) eqs have rt: "loads ?s = Some (JObj n)" by simp
  have nf: "\<forall>g\<in>set (normalize_forms dumps forms). is_normalized g"
    by (rule normalize_forms_normalized)
  have "is_normalized ?f" by (simp add: is_normalized_def dict_get_def)
  with nf fresh(5) eqs have "\<forall>g\<in>set out. is_normalized g" by auto
  then have norm: "normalize_forms dumps out = out" by (rule normalize_forms_id)
  have ht: "has_type t ?f" by (simp add: has_type_def dict_get_def)
  have fnd: "find (has_type t) (normalize_forms dumps out) = Some ?f"
    using fresh(3,5) eqs ht norm by (simp add: find_append_hit)
  have mc: "merged_content (existing_content loads ?f) (JObj n) = Inr n"
    using rt dn by (simp add: existing_content_def merged_content_def dict_unpack_self)
  from merge_forms_found [OF t new fnd mc] obtain pre' post' where
    *: "normalize_forms dumps out = pre' @ ?f # post'" "find (has_type t) pre' = None"
    "merge_forms loads dumps out cand = Inr (pre' @ dict_set ''content'' (JStr ?s) ?f # post')"
    by blast
  have "dict_set ''content'' (JStr ?s) ?f = ?f" by simp
  with * norm show ?thesis by simp
qed

theorem merge_forms_idempotent_witness:
  \<open>merge_forms json_loads json_dumps [scenario_form] scenario_candidate
      = Inr [[(''typeIdentifier'', JStr ''ownership''),
              (''content'', JStr ''{"owner": "B", "team": "X"}'')]]
    \<and> merge_forms json_loads json_dumps
        [[(''typeIdentifier'', JStr ''ownership''),
          (''content'', JStr ''{"owner": "B", "team": "X"}'')]] scenario_candidate
      = Inr [[(''typeIdentifier'', JStr ''ownership''),
              (''content'', JStr ''{"owner": "B", "team": "X"}'')]]\<close>
proof -
  let ?n = "[(''owner'', JStr ''B''), (''team'', JStr ''X'')]"
  let ?out = \<open>[[(''typeIdentifier'', JStr ''ownership''),
                (''content'', JStr ''{"owner": "B", "team": "X"}'')]]\<close>
  have h1: "parse_new_content json_loads scenario_candidate = Inr (JObj ?n)"
    by (simp add: parse_new_content_def scenario_candidate_def)
  have h2: "distinct (map fst ?n)" by simp
  have h3: "typeIdentifier scenario_candidate = Some ''ownership''"
    by (simp add: scenario_candidate_def)
  have h4: "merge_forms json_loads json_dumps [scenario_form] scenario_candidate = Inr ?out"
    by code_simp
  have f: "find (has_type ''ownership'') (normalize_forms json_dumps [scenario_form])
             = Some scenario_form"
    by code_simp
  have e: "existing_content json_loads scenario_form = JObj [(''owner'', JStr ''A'')]"
    by code_simp
  have rt: "json_loads (json_dumps (JObj (dict_unpack [(''owner'', JStr ''A'')] ?n)))
              = Some (JObj (dict_unpack [(''owner'', JStr ''A'')] ?n))"
    by code_simp
  have h5: "case find (has_type ''ownership'') (normalize_forms json_dumps [scenario_form]) of
              None \<Rightarrow> json_loads (json_dumps (JObj ?n)) = Some (JObj ?n)
            | Some f \<Rightarrow> (\<forall>e. existing_content json_loads f = JObj e \<longrightarrow>
                 json_loads (json_dumps (JObj (dict_unpack e ?n))) = Some (JObj (dict_unpack e ?n)))"
    unfolding f using e rt by simp
  from merge_forms_idempotent [OF h1 h2 h3 h4 h5] h4 show ?thesis by simp
qed

section \<open>Properties of the paginated lister\<close>

text \<open>
  C6. When the successive calls of \<open>search\<close> return a finite sequence of pages of which
  only the last lacks a continuation token, and every item of every page carries an
  asset identifier, \<open>list_assets_ids\<close> terminates and returns the identifiers of the
  pages, concatenated in page order; the result has as many entries as the pages have
  items together. When instead a call raises after some pages, \<open>list_assets_ids\<close>
  terminates by raising that same error.
\<close>

theorem list_assets_ids_pages:
  assumes "paging search d p 0 None pages fin"
    and "map (\<lambda>page. identifiers (page_items page)) pages = map Inr idss"
  shows "list_assets_ids search d p
           = Some (case fin of None \<Rightarrow> Inr (concat idss) | Some e \<Rightarrow> Inl e)
         \<and> length (concat idss) = sum_list (map (\<lambda>page. length (page_items page)) pages)"
proof -
  have "list_assets_ids search d p
          = Some (case fin of None \<Rightarrow> Inr ([] @ concat idss) | Some e \<Rightarrow> Inl e)"
    unfolding list_assets_ids_def using assms by (rule list_assets_loop_paging)
  moreover have "length (concat idss) = sum_list (map (\<lambda>page. length (page_items page)) pages)"
    using assms(2)
  proof (induction pages arbitrary: idss)
    case Nil
    then show ?case by simp
  next
    case (Cons page pages)
    then obtain ids rest where "idss = ids # rest" "identifiers (page_items page) = Inr ids"
      "map (\<lambda>page. identifiers (page_items page)) pages = map Inr rest"
      by (cases idss) auto
    with Cons.IH [of rest] show ?case by (simp add: identifiers_length)
  qed
  ultimately show ?thesis by (simp split: option.splits)
qed

theorem list_assets_ids_pages_witness:
  "list_assets_ids two_page_search ''dzd_1'' ''prj_1''
     = Some (Inr [JStr ''asset_1'', JStr ''asset_2'', JStr ''asset_3''])
   \<and> length [JStr ''asset_1'', JStr ''asset_2'', JStr ''asset_3'']
     = sum_list (map (\<lambda>page. length (page_items page)) [first_page, last_page])
   \<and> list_assets_ids failing_search ''dzd_1'' ''prj_1''
     = Some (Inl (ClientError ''ThrottlingException''))"
proof -
  have t1: "truthy (nextToken first_page)" "\<not> truthy (nextToken last_page)"
    "request_token None = None" "request_token (nextToken first_page) = Some ''t1''"
    by (simp_all add: truthy_def request_token_def first_page_def last_page_def)
  have p1: "paging two_page_search ''dzd_1'' ''prj_1'' 0 None [first_page, last_page] None"
    using t1 by (simp add: two_page_search_def)
  have i1: "map (\<lambda>page. identifiers (page_items page)) [first_page, last_page]
              = map Inr [[JStr ''asset_1'', JStr ''asset_2''], [JStr ''asset_3'']]"
    by (simp add: page_items_def first_page_def last_page_def item_identifier_def)
  have p2: "paging failing_search ''dzd_1'' ''prj_1'' 0 None [first_page]
              (Some (ClientError ''ThrottlingException''))"
    using t1 by (simp add: failing_search_def)
  have i2: "map (\<lambda>page. identifiers (page_items page)) [first_page]
              = map Inr [[JStr ''asset_1'', JStr ''asset_2'']]"
    by (simp add: page_items_def first_page_def item_identifier_def)
  from list_assets_ids_pages [OF p1 i1] list_assets_ids_pages [OF p2 i2]
  show ?thesis by simp
qed

section \<open>Properties of the republisher\<close>

text \<open>
  C7. Let the first \<open>n\<close> polls of a changeset happen within the budget and return a
  status that is not terminal. (1) If the next poll also happens within the budget and
  returns \<^verbatim>\<open>ACTIVE\<close>, \<open>aguardar_changeset_completion\<close> returns \<^verbatim>\<open>True\<close>. (2) If the budget is
  exceeded at the next reading of the clock, it raises, having made \<open>n\<close> polls. (3) If
  the next poll happens within the budget and returns \<^verbatim>\<open>FAILED\<close> or \<^verbatim>\<open>CANCELLED\<close>, it raises,
  and that poll, the \<open>n + 1\<close>-th, is the last one made.
\<close>

theorem aguardar_changeset_completion_outcomes:
  assumes "pending_polls clock get_listing c d T (clock (ticks w)) (w\<lparr>ticks := Suc (ticks w)\<rparr>) n"
  shows "(clock (ticks w + n + 1) - clock (ticks w) < T \<longrightarrow>
            get_listing (polls w + n) d c = Inr response \<longrightarrow>
            dict_get response ''status'' = JStr ''ACTIVE'' \<longrightarrow>
            aguardar_changeset_completion clock get_listing c d T w
              = Some (Inr True, w\<lparr>ticks := ticks w + n + 2, polls := polls w + n + 1\<rparr>))
       \<and> (\<not> clock (ticks w + n + 1) - clock (ticks w) < T \<longrightarrow>
            aguardar_changeset_completion clock get_listing c d T w
              = Some (Inl ChangesetTimeout, w\<lparr>ticks := ticks w + n + 2, polls := polls w + n\<rparr>))
       \<and> (clock (ticks w + n + 1) - clock (ticks w) < T \<longrightarrow>
            get_listing (polls w + n) d c = Inr response \<longrightarrow>
            dict_get response ''status'' = JStr ''FAILED''
              \<or> dict_get response ''status'' = JStr ''CANCELLED'' \<longrightarrow>
            aguardar_changeset_completion clock get_listing c d T w
              = Some (Inl ChangesetTimeout,
                      print (StatusCheckError (ChangesetFailed (dict_get response ''status'')))
                        (w\<lparr>ticks := ticks w + n + 2, polls := polls w + n + 1\<rparr>)))"
proof -
  let ?w = "w\<lparr>ticks := Suc (ticks w)\<rparr>"
  let ?wn = "w\<lparr>ticks := ticks w + n + 1, polls := polls w + n\<rparr>"
  have "aguardar_changeset_completion clock get_listing c d T w
          = aguardar_loop clock get_listing c d T (clock (ticks w)) ?w"
    by (simp add: aguardar_changeset_completion_def)
  also have "\<dots> = aguardar_loop clock get_listing c d T (clock (ticks w))
                     (?w\<lparr>ticks := ticks ?w + n, polls := polls ?w + n\<rparr>)"
    using assms by (rule aguardar_loop_pending)
  also have "?w\<lparr>ticks := ticks ?w + n, polls := polls ?w + n\<rparr> = ?wn" by simp
  finally have eq: "aguardar_changeset_completion clock get_listing c d T w
          = aguardar_loop clock get_listing c d T (clock (ticks w)) ?wn" .
  show ?thesis
    unfolding eq
    by (subst aguardar_loop.simps, simp add: Let_def)+
qed

theorem aguardar_changeset_completion_outcomes_witness:
  "aguardar_changeset_completion (steady_clock 1) (settling_listing ''ACTIVE'')
       (JStr ''listing_1'') ''dzd_1'' 300 initial_run
     = Some (Inr True, initial_run\<lparr>ticks := 4, polls := 3\<rparr>)
   \<and> aguardar_changeset_completion (steady_clock 100) (settling_listing ''ACTIVE'')
       (JStr ''listing_1'') ''dzd_1'' 300 initial_run
     = Some (Inl ChangesetTimeout, initial_run\<lparr>ticks := 4, polls := 2\<rparr>)
   \<and> aguardar_changeset_completion (steady_clock 1) (settling_listing ''FAILED'')
       (JStr ''listing_1'') ''dzd_1'' 300 initial_run
     = Some (Inl ChangesetTimeout,
             print (StatusCheckError (ChangesetFailed (JStr ''FAILED'')))
               (initial_run\<lparr>ticks := 4, polls := 3\<rparr>))"
proof -
  let ?w = "initial_run\<lparr>ticks := Suc (ticks initial_run)\<rparr>"
  have p1: "pending_polls (steady_clock 1) (settling_listing final) (JStr ''listing_1'') ''dzd_1'' 300
              (steady_clock 1 (ticks initial_run)) ?w 2" for final
    by (auto simp: pending_polls_def steady_clock_def settling_listing_def dict_get_def
        initial_run_def)
  have p2: "pending_polls (steady_clock 100) (settling_listing ''ACTIVE'') (JStr ''listing_1'')
              ''dzd_1'' 300 (steady_clock 100 (ticks initial_run)) ?w 2"
    by (auto simp: pending_polls_def steady_clock_def settling_listing_def dict_get_def
        initial_run_def)
  have r: "settling_listing final (polls initial_run + 2) ''dzd_1'' (JStr ''listing_1'')
             = Inr [(''status'', JStr final)]" for final
    by (simp add: settling_listing_def)
  have s: "dict_get [(''status'', JStr final)] ''status'' = JStr final" for final
    by (simp add: dict_get_def)
  have t1: "steady_clock 1 (ticks initial_run + 2 + 1) - steady_clock 1 (ticks initial_run) < 300"
    by (simp add: steady_clock_def initial_run_def)
  have t2: "\<not> steady_clock 100 (ticks initial_run + 2 + 1) - steady_clock 100 (ticks initial_run) < 300"
    by (simp add: steady_clock_def initial_run_def)
  from aguardar_changeset_completion_outcomes [OF p1 [of "''ACTIVE''"],
         of "[(''status'', JStr ''ACTIVE'')]"] t1 r [of "''ACTIVE''"] s [of "''ACTIVE''"]
  have a: "aguardar_changeset_completion (steady_clock 1) (settling_listing ''ACTIVE'')
       (JStr ''listing_1'') ''dzd_1'' 300 initial_run
     = Some (Inr True, initial_run\<lparr>ticks := 4, polls := 3\<rparr>)"
    by (simp add: initial_run_def)
  from aguardar_changeset_completion_outcomes [OF p2] t2
  have b: "aguardar_changeset_completion (steady_clock 100) (settling_listing ''ACTIVE'')
       (JStr ''listing_1'') ''dzd_1'' 300 initial_run
     = Some (Inl ChangesetTimeout, initial_run\<lparr>ticks := 4, polls := 2\<rparr>)"
    by (simp add: initial_run_def)
  from aguardar_changeset_completion_outcomes [OF p1 [of "''FAILED''"],
         of "[(''status'', JStr ''FAILED'')]"] t1 r [of "''FAILED''"] s [of "''FAILED''"]
  have c: "aguardar_changeset_completion (steady_clock 1) (settling_listing ''FAILED'')
       (JStr ''listing_1'') ''dzd_1'' 300 initial_run
     = Some (Inl ChangesetTimeout,
             print (StatusCheckError (ChangesetFailed (JStr ''FAILED'')))
               (initial_run\<lparr>ticks := 4, polls := 3\<rparr>))"
    by (simp add: initial_run_def eval_nat_numeral)
  from a b c show ?thesis by simp
qed

text \<open>
  C10. (1) When the listing is empty, \<open>republish_main\<close> ends with \<open>IndexError\<close>: no
  changeset was requested and nothing but the opening message was printed. (2) When the
  listing is \<open>first # rest\<close> and the clock keeps advancing, \<open>republish_main\<close> returns.
  Changesets are requested for \<open>first\<close>, then \<open>first\<close> again, then \<open>rest\<close>: the first
  asset gets two. The call made before the loop prints no report and its result \<open>b\<close> is
  dropped; the reports printed name each asset of the listing once, and the final count
  is the number of success reports.
\<close>

theorem republish_main_first_asset_twice:
  "(list_assets_ids search domain_id project_id = Some (Inr []) \<longrightarrow>
      republish_main search clock get_listing create_listing_change_set project_id domain_id
        = Some (Inl IndexError,
                \<lparr> ticks = 0, polls = 0, requested = [], printed = [RepublishStarted] \<rparr>))
   \<and> (list_assets_ids search domain_id project_id = Some (Inr (first # rest)) \<longrightarrow>
      advancing clock 300 \<longrightarrow>
      (\<exists>b w1 count w2.
          republicar_asset clock get_listing create_listing_change_set first domain_id
              (print RepublishStarted initial_run) = Some (b, w1)
        \<and> filter is_report (printed w1) = []
        \<and> republish_loop clock get_listing create_listing_change_set domain_id
              (Suc (length rest)) 0 (first # rest) w1 = Some (count, w2)
        \<and> republish_main search clock get_listing create_listing_change_set project_id domain_id
              = Some (Inr (), print RepublishFinished w2)
        \<and> requested w2 = first # first # rest
        \<and> reported (printed w2) = first # rest
        \<and> count = length (filter (\<lambda>m. \<exists>a. m = Republished a) (printed w2))))"
proof (intro conjI impI)
  assume "list_assets_ids search domain_id project_id = Some (Inr [])"
  then show "republish_main search clock get_listing create_listing_change_set project_id domain_id
        = Some (Inl IndexError,
                \<lparr> ticks = 0, polls = 0, requested = [], printed = [RepublishStarted] \<rparr>)"
    by (simp add: republish_main_def initial_run_def print_def)
next
  assume listing: "list_assets_ids search domain_id project_id = Some (Inr (first # rest))"
    and adv: "advancing clock 300"
  let ?w0 = "print RepublishStarted initial_run"
  from republicar_asset_returns [OF adv, of get_listing create_listing_change_set first domain_id ?w0]
  obtain b w1 where
    r: "republicar_asset clock get_listing create_listing_change_set first domain_id ?w0
          = Some (b, w1)"
    "requested w1 = requested ?w0 @ [first]"
    "filter is_report (printed w1) = filter is_report (printed ?w0)"
    by blast
  then have quiet: "filter is_report (printed w1) = []" and req1: "requested w1 = [first]"
    by (simp_all add: print_def initial_run_def)
  have none: "filter (\<lambda>m. \<exists>a. m = Republished a) (printed w1) = []"
    "reported (printed w1) = []"
    using republished_filter [of "printed w1"] reported_filter [of "printed w1"] quiet
    by (simp_all add: reported_def)
  from republish_loop_returns [OF adv, of get_listing create_listing_change_set domain_id
      "Suc (length rest)" 0 "first # rest" w1]
  obtain count w2 where
    l: "republish_loop clock get_listing create_listing_change_set domain_id
              (Suc (length rest)) 0 (first # rest) w1 = Some (count, w2)"
    "requested w2 = requested w1 @ first # rest"
    "reported (printed w2)
       = reported (printed w1) @ first # rest"
    "count + length (filter (\<lambda>m. \<exists>a. m = Republished a) (printed w1))
       = 0 + length (filter (\<lambda>m. \<exists>a. m = Republished a) (printed w2))"
    by blast
  have "republish_main search clock get_listing create_listing_change_set project_id domain_id
          = Some (Inr (), print RepublishFinished w2)"
    using listing r(1) l(1) by (simp add: republish_main_def Let_def)
  with r(1) quiet l req1 none show "\<exists>b w1 count w2.
          republicar_asset clock get_listing create_listing_change_set first domain_id
              (print RepublishStarted initial_run) = Some (b, w1)
        \<and> filter is_report (printed w1) = []
        \<and> republish_loop clock get_listing create_listing_change_set domain_id
              (Suc (length rest)) 0 (first # rest) w1 = Some (count, w2)
        \<and> republish_main search clock get_listing create_listing_change_set project_id domain_id
              = Some (Inr (), print RepublishFinished w2)
        \<and> requested w2 = first # first # rest
        \<and> reported (printed w2) = first # rest
        \<and> count = length (filter (\<lambda>m. \<exists>a. m = Republished a) (printed w2))"
    by (intro exI [of _ b] exI [of _ w1] exI [of _ count] exI [of _ w2]) simp
qed

theorem republish_main_first_asset_twice_witness:
  "republish_main empty_search (steady_clock 100) (settling_listing ''ACTIVE'') accepting_catalog
       ''prj_1'' ''dzd_1''
     = Some (Inl IndexError,
             \<lparr> ticks = 0, polls = 0, requested = [], printed = [RepublishStarted] \<rparr>)
   \<and> (\<exists>w2. republish_main two_page_search (steady_clock 100) (settling_listing ''ACTIVE'')
               accepting_catalog ''prj_1'' ''dzd_1''
             = Some (Inr (), print RepublishFinished w2)
          \<and> requested w2 = [JStr ''asset_1'', JStr ''asset_1'', JStr ''asset_2'', JStr ''asset_3'']
          \<and> reported (printed w2)
              = [JStr ''asset_1'', JStr ''asset_2'', JStr ''asset_3''])"
proof -
  note inst = republish_main_first_asset_twice
      [where clock = "steady_clock 100" and get_listing = "settling_listing ''ACTIVE''"
         and create_listing_change_set = accepting_catalog and project_id = "''prj_1''"
         and domain_id = "''dzd_1''"]
  from inst [where search = empty_search] empty_search_listing
  have a: "republish_main empty_search (steady_clock 100) (settling_listing ''ACTIVE'')
       accepting_catalog ''prj_1'' ''dzd_1''
     = Some (Inl IndexError,
             \<lparr> ticks = 0, polls = 0, requested = [], printed = [RepublishStarted] \<rparr>)"
    by blast
  from inst [where search = two_page_search and first = "JStr ''asset_1''"
        and rest = "[JStr ''asset_2'', JStr ''asset_3'']"]
    two_page_search_listing steady_clock_advancing
  have b: "\<exists>w2. republish_main two_page_search (steady_clock 100) (settling_listing ''ACTIVE'')
               accepting_catalog ''prj_1'' ''dzd_1''
             = Some (Inr (), print RepublishFinished w2)
          \<and> requested w2 = [JStr ''asset_1'', JStr ''asset_1'', JStr ''asset_2'', JStr ''asset_3'']
          \<and> reported (printed w2)
              = [JStr ''asset_1'', JStr ''asset_2'', JStr ''asset_3'']"
    by blast
  from a b show ?thesis by blast
qed

section \<open>Properties of the metadata backup\<close>

text \<open>
  C9. When the listing succeeds and the backup completes, the frame handed to \<^verbatim>\<open>to_csv\<close>
  has exactly one row per listed asset, in listing order: the row of the \<open>i\<close>-th asset
  is the single row of the frame that \<open>create_metadata_df\<close> builds for it. The columns of
  the output are the union of the columns of these per-asset frames, and in an asset's
  row every column that its own frame lacks is blank. For an asset without a form of a
  given name, \<open>filter_content_output\<close> prints the warning and yields the frame of the
  empty mapping, one row without fields, so the asset's row is still built.
\<close>

theorem backup_one_row_per_asset:
  assumes "list_assets_ids search d p = Some (Inr ids)"
    and "backup_main search loads get_asset d p = Some (Inr out, msgs)"
  shows "length (frows out) = length ids
         \<and> (\<exists>fs. length fs = length ids
              \<and> (\<forall>i<length ids. \<exists>a ms. get_asset d (ids ! i) = Inr a
                     \<and> create_metadata_df loads a = (Inr (fs ! i), ms)
                     \<and> frows (fs ! i) = [frows out ! i]
                     \<and> (\<forall>c. c \<notin> set (columns (fs ! i)) \<longrightarrow> map_of (frows out ! i) c = None))
              \<and> set (columns out) = (\<Union>f\<in>set fs. set (columns f)))
         \<and> (formsOutput a = Some forms \<longrightarrow>
              (\<forall>form\<in>set forms. dict_get form ''formName'' \<noteq> JStr nm) \<longrightarrow>
              filter_content_output loads a nm
                = (Inr \<lparr> columns = [], frows = [[]] \<rparr>, [FormNotFound nm]))"
proof -
  from assms have "backup_loop loads get_asset d ids empty_frame = (Inr out, msgs)"
    by (simp add: backup_main_def)
  from backup_loop_frames [OF this] obtain fs where
    fs: "length fs = length ids"
    "\<forall>i<length ids. \<exists>a ms. get_asset d (ids ! i) = Inr a
           \<and> create_metadata_df loads a = (Inr (fs ! i), ms)"
    "frows out = concat (map frows fs)"
    "set (columns out) = (\<Union>f\<in>set fs. set (columns f))"
    by (auto simp: empty_frame_def)
  have good: "length (frows f) = 1 \<and> labelled f" if "f \<in> set fs" for f
  proof -
    from that obtain i where "i < length fs" "f = fs ! i" by (auto simp: in_set_conv_nth)
    with fs(1,2) obtain a ms where "create_metadata_df loads a = (Inr f, ms)" by auto
    then show ?thesis by (rule create_metadata_df_row)
  qed
  then have one: "\<forall>f\<in>set fs. length (frows f) = 1" by blast
  from concat_single_rows [OF one] fs(3) have
    len: "length (frows out) = length fs"
    and rows: "\<forall>i<length fs. frows (fs ! i) = [frows out ! i]"
    by simp_all
  have blank: "map_of (frows out ! i) c = None"
    if "i < length ids" "c \<notin> set (columns (fs ! i))" for i c
  proof -
    from that(1) fs(1) have i: "i < length fs" by simp
    then have "fs ! i \<in> set fs" by simp
    with good have "labelled (fs ! i)" by blast
    moreover from rows i have "frows out ! i \<in> set (frows (fs ! i))" by simp
    ultimately have "fst ` set (frows out ! i) \<subseteq> set (columns (fs ! i))"
      unfolding labelled_def by blast
    with that(2) have "c \<notin> fst ` set (frows out ! i)" by blast
    then show ?thesis by (simp add: map_of_eq_None_iff)
  qed
  have per: "\<forall>i<length ids. \<exists>a ms. get_asset d (ids ! i) = Inr a
                     \<and> create_metadata_df loads a = (Inr (fs ! i), ms)
                     \<and> frows (fs ! i) = [frows out ! i]
                     \<and> (\<forall>c. c \<notin> set (columns (fs ! i)) \<longrightarrow> map_of (frows out ! i) c = None)"
  proof (intro allI impI)
    fix i assume i: "i < length ids"
    with fs(2) obtain a ms where "get_asset d (ids ! i) = Inr a"
      "create_metadata_df loads a = (Inr (fs ! i), ms)" by blast
    moreover from rows i fs(1) have "frows (fs ! i) = [frows out ! i]" by simp
    moreover from blank i have
      "\<forall>c. c \<notin> set (columns (fs ! i)) \<longrightarrow> map_of (frows out ! i) c = None" by blast
    ultimately show "\<exists>a ms. get_asset d (ids ! i) = Inr a
                     \<and> create_metadata_df loads a = (Inr (fs ! i), ms)
                     \<and> frows (fs ! i) = [frows out ! i]
                     \<and> (\<forall>c. c \<notin> set (columns (fs ! i)) \<longrightarrow> map_of (frows out ! i) c = None)"
      by blast
  qed
  have missing: "formsOutput a = Some forms \<longrightarrow>
              (\<forall>form\<in>set forms. dict_get form ''formName'' \<noteq> JStr nm) \<longrightarrow>
              filter_content_output loads a nm
                = (Inr \<lparr> columns = [], frows = [[]] \<rparr>, [FormNotFound nm])"
    by (simp add: filter_content_output_def named_contents_none data_frame_def)
  from len fs(1) have "length (frows out) = length ids" by simp
  moreover from fs(1,4) per have "\<exists>fs. length fs = length ids
              \<and> (\<forall>i<length ids. \<exists>a ms. get_asset d (ids ! i) = Inr a
                     \<and> create_metadata_df loads a = (Inr (fs ! i), ms)
                     \<and> frows (fs ! i) = [frows out ! i]
                     \<and> (\<forall>c. c \<notin> set (columns (fs ! i)) \<longrightarrow> map_of (frows out ! i) c = None))
              \<and> set (columns out) = (\<Union>f\<in>set fs. set (columns f))"
    by (intro exI [of _ fs]) simp
  ultimately show ?thesis using missing by simp
qed

text \<open>
  The specification's scenario: two assets, the second without \<^verbatim>\<open>dominio_de_dados\<close>; two
  rows are written, and the \<^verbatim>\<open>domain\<close> field of the second is blank.
\<close>

theorem backup_one_row_per_asset_witness:
  "\<exists>out. backup_main two_asset_search json_loads backup_catalog ''dzd_1'' ''prj_1''
            = Some (Inr out, [FormNotFound ''dominio_de_dados''])
         \<and> length (frows out) = 2
         \<and> columns out = [JStr ''classificacao_privacidade'', JStr ''domain'',
                            JStr ''tableName'', JStr descricao]
         \<and> csv_cells out
             = [[Some (JStr ''PII''), Some (JStr ''Vendas''), Some (JStr ''orders''),
                 Some (JStr ''Orders table'')],
                [Some (JStr ''Interno''), None, Some (JStr ''clients''), Some (JStr [])]]
         \<and> filter_content_output json_loads partial_asset ''dominio_de_dados''
             = (Inr \<lparr> columns = [], frows = [[]] \<rparr>, [FormNotFound ''dominio_de_dados''])"
proof -
  let ?out = "
    \<lparr> columns = [JStr ''classificacao_privacidade'', JStr ''domain'', JStr ''tableName'',
                  JStr descricao],
      frows = [[(JStr ''classificacao_privacidade'', JStr ''PII''),
                (JStr ''domain'', JStr ''Vendas''),
                (JStr ''tableName'', JStr ''orders''),
                (JStr descricao, JStr ''Orders table'')],
               [(JStr ''classificacao_privacidade'', JStr ''Interno''),
                (JStr ''tableName'', JStr ''clients''),
                (JStr descricao, JStr [])]] \<rparr>"
  let ?forms = "
    [[(''formName'', JStr ''GlueTableForm''), (''typeName'', JStr ''GlueTable''),
      (''content'', JStr (json_dumps (JObj [(''tableName'', JStr ''clients'')])))],
     [(''formName'', JStr ''seguranca_privacidade''), (''typeName'', JStr ''seguranca_privacidade''),
      (''content'', JStr (json_dumps (JObj [(''classificacao_privacidade'', JStr ''Interno'')])))]]"
  have listing: "list_assets_ids two_asset_search ''dzd_1'' ''prj_1''
                   = Some (Inr [JStr ''asset_1'', JStr ''asset_2''])"
    unfolding list_assets_ids_def
    by (subst list_assets_loop.simps)
       (simp add: two_asset_search_def page_items_def truthy_def item_identifier_def)
  have run1: "fst (backup_loop json_loads backup_catalog ''dzd_1''
                     [JStr ''asset_1'', JStr ''asset_2''] empty_frame) = Inr ?out"
    by code_simp
  have run2: "snd (backup_loop json_loads backup_catalog ''dzd_1''
                     [JStr ''asset_1'', JStr ''asset_2''] empty_frame)
                = [FormNotFound ''dominio_de_dados'']"
    by code_simp
  have run: "backup_loop json_loads backup_catalog ''dzd_1'' [JStr ''asset_1'', JStr ''asset_2'']
               empty_frame = (Inr ?out, [FormNotFound ''dominio_de_dados''])"
    by (rule prod_eqI) (simp only: run1 fst_conv, simp only: run2 snd_conv)
  have main: "backup_main two_asset_search json_loads backup_catalog ''dzd_1'' ''prj_1''
                = Some (Inr ?out, [FormNotFound ''dominio_de_dados''])"
    unfolding backup_main_def by (simp only: listing run option.case sum.case)
  have cells: "csv_cells ?out
             = [[Some (JStr ''PII''), Some (JStr ''Vendas''), Some (JStr ''orders''),
                 Some (JStr ''Orders table'')],
                [Some (JStr ''Interno''), None, Some (JStr ''clients''), Some (JStr [])]]"
    by code_simp
  have f: "formsOutput partial_asset = Some ?forms"
    by code_simp
  have none: "\<forall>form\<in>set ?forms. dict_get form ''formName'' \<noteq> JStr ''dominio_de_dados''"
    by (simp add: dict_get_def)
  from backup_one_row_per_asset [OF listing main, of partial_asset ?forms "''dominio_de_dados''"]
    f none
  have "length (frows ?out) = 2"
    and "filter_content_output json_loads partial_asset ''dominio_de_dados''
             = (Inr \<lparr> columns = [], frows = [[]] \<rparr>, [FormNotFound ''dominio_de_dados''])"
    by simp_all
  with main cells show ?thesis
    by (intro exI [of _ ?out]) simp
qed

section \<open>Properties of glossary creation\<close>

text \<open>
  C8. A creation that fails with the name-conflict client error (code
  \<^verbatim>\<open>ConflictException\<close>) makes \<open>add_glossary\<close> and \<open>add_glossary_term\<close> print the
  "already exists" message and return normally; a creation that fails with a client
  error of any other code raises that same error to the caller, printing nothing.
\<close>

theorem glossary_conflict_is_success:
  "add_glossary (Some (ClientError ''ConflictException'')) g = (Inr (), [GlossaryExists g])
   \<and> add_glossary_term (Some (ClientError ''ConflictException'')) t = (Inr (), [TermExists t])
   \<and> (code \<noteq> ''ConflictException'' \<longrightarrow>
        add_glossary (Some (ClientError code)) g = (Inl (ClientError code), [])
        \<and> add_glossary_term (Some (ClientError code)) t = (Inl (ClientError code), []))"
  by (simp add: add_glossary_def add_glossary_term_def)

theorem glossary_conflict_is_success_witness:
  "''AccessDeniedException'' \<noteq> ''ConflictException''
   \<and> add_glossary (Some (ClientError ''AccessDeniedException'')) ''PII''
       = (Inl (ClientError ''AccessDeniedException''), [])
   \<and> add_glossary_term (Some (ClientError ''AccessDeniedException'')) ''PII''
       = (Inl (ClientError ''AccessDeniedException''), [])"
  using glossary_conflict_is_success [of "''PII''" "''PII''" "''AccessDeniedException''"]
  by simp

end
